theory Spec2Isabelle
  imports Main "HOL-Library.Word" "HOL-Library.AList" "HOL-Library.Multiset"
begin

section \<open>Values, errors and outcomes\<close>

text \<open>
  The Go code works on \<^verbatim>\<open>interface{}\<close> documents. The model follows the data model
  of the specification: a document node is null, a 64-bit signed integer, a 64-bit float,
  a string, a boolean, a sequence of nodes or a map from nodes to nodes. The payload of a
  float is kept abstract (the type parameter \<open>'f\<close>): the code only carries floats around.

  A Go map has no order, and \<^verbatim>\<open>range\<close> enumerates it in an order the runtime chooses.
  A map is modelled by the list of its entries in the order in which the loops enumerate
  it; a Go map has pairwise distinct keys (\<open>go_value\<close> below).
\<close>

datatype 'f Value =
    Null
  | Int64 "64 word"
  | Float64 'f
  | Str string
  | Boolean bool
  | Slice "'f Value list"
  | MapOf "('f Value \<times> 'f Value) list"

datatype PrimitiveType =
    PrimTypeInt | PrimTypeFloat | PrimTypeString | PrimTypeBool
  | PrimTypeMap | PrimTypeList | PrimTypeStringList

text \<open>
  Modelled from the spec: the helpers \<^verbatim>\<open>s.Index\<close>, \<^verbatim>\<open>s.UserStr\<close> and
  \<^verbatim>\<open>s.UserStrStripped\<close> (package \<^verbatim>\<open>pkg/api/strings\<close>) are not under src/. They
  render an index or a value as the text of one location-path segment; a segment is kept
  as the helper applied to its argument. \<open>Field\<close> is a segment that is a plain name
  (an argument or column name).
\<close>

datatype 'f Segment =
    Field string
  | Index nat
  | UserStr "'f Value"
  | UserStrStripped "'f Value"

text \<open>
  The error constructors of \<^verbatim>\<open>userconfig\<close> and \<^verbatim>\<open>configreader\<close> that
  \<^verbatim>\<open>validators.go\<close> calls, each with the arguments it is given there. An argument of
  type \<^verbatim>\<open>interface{}\<close> is a \<open>Value\<close> (a Go string \<open>s\<close> is \<open>Str s\<close>, a
  \<^verbatim>\<open>[]string\<close> is the \<open>Slice\<close> of its strings).
\<close>

datatype 'f ErrorKind =
    ErrorInvalidValueDataType "'f Value"
  | ErrorTypeListLength "string list"
  | ErrorGenericTypeMapLength "('f Value \<times> 'f Value) list"
  | ErrorArgNameCannotBeType string
  | ErrorInvalidPrimitiveType "'f Value" "PrimitiveType list"
  | ErrorMustBeDefined
  | ErrorMapMustBeDefined "string list"
  | ErrorUnsupportedKey "'f Value"
  | ErrorMustBeEmpty
  | ErrorUnsupportedDataType "'f Value" "'f Value"
  | ErrorInvalidColumnInputType "'f Value"

datatype 'f Error = Error (kind: "'f ErrorKind") (path: "'f Segment list")

text \<open>
  Modelled from the spec: \<^verbatim>\<open>errors.Wrap\<close> (package \<^verbatim>\<open>pkg/lib/errors\<close>) is not under
  src/. The spec (sections 7 and 9) describes an error as a kind with a location path,
  built by prepending path segments as the error returns up the recursion.
\<close>

definition Wrap :: "'f Error \<Rightarrow> 'f Segment list \<Rightarrow> 'f Error" where
  "Wrap err strs = Error (kind err) (strs @ path err)"

text \<open>
  What a call does: it returns a value (\<open>Ok\<close>; for a function that returns only an
  \<^verbatim>\<open>error\<close>, \<open>Ok ()\<close> is \<^verbatim>\<open>nil\<close>), returns an error (\<open>Fail\<close>), or panics, as Go
  does when a slice is indexed out of range.
\<close>

datatype ('e, 'a) outcome = Ok 'a | Fail 'e | Panic

text \<open>
  A \<^verbatim>\<open>for ... range\<close> loop whose body may return from the function: the body maps the
  element and the loop's variables to the new variables, or leaves with an error or a
  panic.
\<close>

fun range_loop :: "'a list \<Rightarrow> 's \<Rightarrow> ('a \<Rightarrow> 's \<Rightarrow> ('e, 's) outcome) \<Rightarrow> ('e, 's) outcome" where
  "range_loop [] s body = Ok s"
| "range_loop (x # xs) s body =
     (case body x s of
        Ok s' \<Rightarrow> range_loop xs s' body
      | Fail e \<Rightarrow> Fail e
      | Panic \<Rightarrow> Panic)"

lemma range_loop_cong [fundef_cong]:
  assumes "xs = ys" and "s = t" and "\<And>x a. x \<in> set ys \<Longrightarrow> f x a = g x a"
  shows "range_loop xs s f = range_loop ys t g"
  unfolding assms(1) assms(2) using assms(3)
proof (induction ys arbitrary: t)
  case Nil
  show ?case by simp
next
  case (Cons y ys)
  have "f y t = g y t" using Cons.prems by simp
  moreover have "range_loop ys u f = range_loop ys u g" for u
    using Cons.IH Cons.prems by simp
  ultimately show ?case by (simp split: outcome.splits)
qed

section \<open>Library functions the validators call\<close>

text \<open>
  Go's \<^verbatim>\<open>strings.Split(s, sep)\<close> for a separator of one character, which is how
  \<^verbatim>\<open>validators.go\<close> calls it (\<^verbatim>\<open>"|"\<close>): the pieces between the separators, so the
  empty string splits into one empty piece.
\<close>

fun Split :: "string \<Rightarrow> char \<Rightarrow> string list" where
  "Split [] sep = [[]]"
| "Split (c # cs) sep =
     (if c = sep then [] # Split cs sep
      else (case Split cs sep of
              [] \<Rightarrow> [[c]]
            | piece # pieces \<Rightarrow> (c # piece) # pieces))"

text \<open>
  Modelled from the spec: \<^verbatim>\<open>slices.HasString\<close> (package \<^verbatim>\<open>pkg/lib/slices\<close>) is not
  under src/; it is the membership test the spec calls "present in the union".
\<close>

fun HasString :: "string list \<Rightarrow> string \<Rightarrow> bool" where
  "HasString [] query = False"
| "HasString (elem # list) query = (if elem = query then True else HasString list query)"

text \<open>
  Modelled from the spec: the \<^verbatim>\<open>ValueType\<close> enumeration and \<^verbatim>\<open>ValueTypeStrings\<close>
  (\<^verbatim>\<open>value_type.go\<close>) are not under src/. The spec names the closed enumeration
  integer, float, string, bool, and its examples write the kinds \<^verbatim>\<open>INT\<close>,
  \<^verbatim>\<open>FLOAT\<close> and \<^verbatim>\<open>STRING\<close>; \<^verbatim>\<open>BOOL\<close> is the fourth name.
\<close>

datatype ValueType = IntegerValueType | FloatValueType | StringValueType | BoolValueType

fun String_of :: "ValueType \<Rightarrow> string" where
  "String_of IntegerValueType = ''INT''"
| "String_of FloatValueType = ''FLOAT''"
| "String_of StringValueType = ''STRING''"
| "String_of BoolValueType = ''BOOL''"

definition ValueTypeStrings :: "string list" where
  "ValueTypeStrings =
     map String_of [IntegerValueType, FloatValueType, StringValueType, BoolValueType]"

text \<open>
  Modelled from the spec: package \<^verbatim>\<open>cast\<close> (\<^verbatim>\<open>pkg/lib/cast\<close>) is not under src/.
  \<^verbatim>\<open>InterfaceToStrSlice\<close>, \<^verbatim>\<open>InterfaceToInterfaceSlice\<close> and
  \<^verbatim>\<open>InterfaceToInterfaceInterfaceMap\<close> read a value as a sequence of strings, a
  sequence, or a map, and say whether they could (\<open>None\<close> is \<^verbatim>\<open>ok = false\<close>). A null
  value is read as the nil slice or nil map with \<^verbatim>\<open>ok = true\<close>:
  \<^verbatim>\<open>ValidateColumnInputValues\<close> tests the slice it gets back against \<^verbatim>\<open>nil\<close> after
  \<^verbatim>\<open>ok\<close>.
\<close>

fun strings_of :: "'f Value list \<Rightarrow> string list option" where
  "strings_of [] = Some []"
| "strings_of (Str s # vs) = map_option ((#) s) (strings_of vs)"
| "strings_of (v # vs) = None"

fun InterfaceToInterfaceSlice :: "'f Value \<Rightarrow> 'f Value list option" where
  "InterfaceToInterfaceSlice Null = Some []"
| "InterfaceToInterfaceSlice (Slice vs) = Some vs"
| "InterfaceToInterfaceSlice v = None"

fun InterfaceToStrSlice :: "'f Value \<Rightarrow> string list option" where
  "InterfaceToStrSlice Null = Some []"
| "InterfaceToStrSlice (Slice vs) = strings_of vs"
| "InterfaceToStrSlice v = None"

fun InterfaceToInterfaceInterfaceMap :: "'f Value \<Rightarrow> ('f Value \<times> 'f Value) list option" where
  "InterfaceToInterfaceInterfaceMap Null = Some []"
| "InterfaceToInterfaceInterfaceMap (MapOf m) = Some m"
| "InterfaceToInterfaceInterfaceMap v = None"

text \<open>
  The numeric coercions \<^verbatim>\<open>cast.InterfaceToInt64\<close> and \<^verbatim>\<open>cast.InterfaceToFloat64\<close>
  are not under src/ either, and the spec says of them only that they are the "native
  coercion" of a kind. They are a parameter of the caster: every theorem about
  \<open>CastValue\<close> holds for all coercions, or names what it needs of them.
\<close>

record 'f cast =
  InterfaceToInt64 :: "'f Value \<Rightarrow> 64 word option"
  InterfaceToFloat64 :: "'f Value \<Rightarrow> 'f option"

text \<open>The type assertions \<^verbatim>\<open>value.(string)\<close> and \<^verbatim>\<open>value.(bool)\<close>.\<close>

fun assert_string :: "'f Value \<Rightarrow> string option" where
  "assert_string (Str s) = Some s"
| "assert_string v = None"

fun assert_bool :: "'f Value \<Rightarrow> bool option" where
  "assert_bool (Boolean b) = Some b"
| "assert_bool v = None"

text \<open>
  Modelled from the spec: an instance of the coercions of package \<^verbatim>\<open>cast\<close>, used
  where a theorem is applied to a concrete input. The spec says of the integer coercion
  that "a numeric-looking string against INT|STRING casts to integer" and that
  \<^verbatim>\<open>CastValue("5", "INT|STRING")\<close> is the integer 5: an integer is accepted as it is,
  and so is a string of decimal digits, with an optional minus sign, that fits 64 bits.
  Of the float coercion the spec says nothing beyond "native coercion": a float is
  accepted as it is.
\<close>

definition digit_of :: "char \<Rightarrow> nat option" where
  "digit_of c = map_of (zip ''0123456789'' [0, 1, 2, 3, 4, 5, 6, 7, 8, 9]) c"

fun digits_value :: "nat \<Rightarrow> string \<Rightarrow> nat option" where
  "digits_value acc [] = Some acc"
| "digits_value acc (c # cs) =
     (case digit_of c of None \<Rightarrow> None | Some d \<Rightarrow> digits_value (10 * acc + d) cs)"

definition parse_int64 :: "string \<Rightarrow> 64 word option" where
  "parse_int64 s =
     (case s of
        [] \<Rightarrow> None
      | c # cs \<Rightarrow>
          if c = CHR ''-''
          then (if cs = [] then None
                else (case digits_value 0 cs of
                        None \<Rightarrow> None
                      | Some n \<Rightarrow> if n \<le> 2 ^ 63 then Some (- word_of_nat n) else None))
          else (case digits_value 0 s of
                  None \<Rightarrow> None
                | Some n \<Rightarrow> if n < 2 ^ 63 then Some (word_of_nat n) else None))"

definition spec_cast :: "'f cast" where
  "spec_cast =
     \<lparr> InterfaceToInt64 =
         (\<lambda>value. case value of Int64 i \<Rightarrow> Some i | Str s \<Rightarrow> parse_int64 s | _ \<Rightarrow> None),
       InterfaceToFloat64 =
         (\<lambda>value. case value of Float64 f \<Rightarrow> Some f | _ \<Rightarrow> None) \<rparr>"

section \<open>The validator of type expressions\<close>

text \<open>\<^verbatim>\<open>isValidValueType\<close> (lines 39-46).\<close>

definition isValidValueType :: "string \<Rightarrow> bool" where
  "isValidValueType valueTypeStr =
     list_all (\<lambda>valueTypeStrItem. HasString ValueTypeStrings valueTypeStrItem)
       (Split valueTypeStr CHR ''|'')"

text \<open>
  \<^verbatim>\<open>isValidColumnInputType\<close> (lines 30-37). The table \<^verbatim>\<open>ColumnTypeStrings()\<close> is
  not under src/ and is the parameter \<open>columnTypeStrings\<close>.
\<close>

definition isValidColumnInputType :: "string list \<Rightarrow> string \<Rightarrow> bool" where
  "isValidColumnInputType columnTypeStrings columnTypeStr =
     list_all (\<lambda>columnTypeStrItem. HasString columnTypeStrings columnTypeStrItem)
       (Split columnTypeStr CHR ''|'')"

text \<open>The key of a map read as a string naming a valid type (lines 205-206, 313-314).\<close>

fun isTypeKey :: "'f Value \<Rightarrow> bool" where
  "isTypeKey (Str strKey) = isValidValueType strKey"
| "isTypeKey key = False"

text \<open>
  \<^verbatim>\<open>ValidateValueType\<close> (lines 184-232), one equation for each shape of the type
  expression: a string (lines 185-190), a map (lines 202-229), and every other value,
  which the source reads as a sequence of strings (lines 192-200) or rejects (line 231).
\<close>

fun ValidateValueType :: "'f Value \<Rightarrow> ('f Error, unit) outcome" where
  "ValidateValueType (Str valueTypeStr) =
     (if \<not> isValidValueType valueTypeStr
      then Fail (Error (ErrorInvalidValueDataType (Str valueTypeStr)) [])
      else Ok ())"
| "ValidateValueType (MapOf valueTypeMap) =
     (let foundGenericKey = list_ex (\<lambda>(key, val). isTypeKey key) valueTypeMap in
      if foundGenericKey \<and> length valueTypeMap \<noteq> 1
      then Fail (Error (ErrorGenericTypeMapLength valueTypeMap) [])
      else range_loop valueTypeMap ()
             (\<lambda>(key, val) u.
                case (if foundGenericKey then ValidateValueType key else Ok ()) of
                  Fail err \<Rightarrow> Fail err
                | Panic \<Rightarrow> Panic
                | Ok u' \<Rightarrow>
                    (case ValidateValueType val of
                       Fail err \<Rightarrow> Fail (Wrap err [UserStrStripped key])
                     | Panic \<Rightarrow> Panic
                     | Ok u'' \<Rightarrow> Ok ())))"
| "ValidateValueType valueType =
     (case InterfaceToStrSlice valueType of
        Some valueTypeStrs \<Rightarrow>
          (if length valueTypeStrs \<noteq> 1
           then Fail (Wrap (Error (ErrorTypeListLength valueTypeStrs) []) [])
           else (case valueTypeStrs of
                   [] \<Rightarrow> Panic
                 | valueTypeStr0 # rest \<Rightarrow>
                     if \<not> isValidValueType valueTypeStr0
                     then Fail (Error (ErrorInvalidValueDataType (Str valueTypeStr0)) [])
                     else Ok ()))
      | None \<Rightarrow> Fail (Error (ErrorInvalidValueDataType valueType) []))"

text \<open>\<^verbatim>\<open>ValidateValue\<close> (lines 244-246): the hook that accepts every value.\<close>

definition ValidateValue :: "'f Value \<Rightarrow> ('f Error, unit) outcome" where
  "ValidateValue value = Ok ()"

section \<open>The caster\<close>

text \<open>Sizes of the parts of a value, for the termination of the recursive functions.\<close>

lemma size_entry_in_list:
  "(k, v) \<in> set m \<Longrightarrow> size k + size v < size_list (size_prod size size) m"
  by (induction m) auto

lemma size_map_entry:
  assumes "InterfaceToInterfaceInterfaceMap value = Some valueMap" and "(k, v) \<in> set valueMap"
  shows "size k < size value" and "size v < size value"
proof -
  obtain m where m: "value = MapOf m" "valueMap = m"
    using assms by (cases "value") auto
  have "size k + size v < size_list (size_prod size size) m"
    using assms(2) m by (simp add: size_entry_in_list)
  then show "size k < size value" and "size v < size value"
    using m by simp_all
qed

lemma size_item_in_list: "x \<in> set vs \<Longrightarrow> size x < Suc (size_list size vs)"
  by (induction vs) auto

lemma size_slice_item:
  assumes "InterfaceToInterfaceSlice value = Some valueSlice" and "x \<in> set valueSlice"
  shows "size x < size value"
proof -
  obtain vs where vs: "value = Slice vs" "valueSlice = vs"
    using assms by (cases "value") auto
  then show ?thesis using assms(2) size_item_in_list [of x vs] by simp
qed

text \<open>
  \<^verbatim>\<open>configreader.ErrorInvalidPrimitiveType(provided, allowedTypes...)\<close> returned with a
  nil value.
\<close>

definition InvalidPrimitive :: "'f Value \<Rightarrow> PrimitiveType list \<Rightarrow> ('f Error, 'a) outcome" where
  "InvalidPrimitive value validTypeNames = Fail (Error (ErrorInvalidPrimitiveType value validTypeNames) [])"

text \<open>
  The cast against a union of primitive kinds (lines 262-293), one definition for each
  of the four \<^verbatim>\<open>if\<close> statements, last first: each takes the names accepted so far
  (\<^verbatim>\<open>validTypeNames\<close>) and falls through to the next when its kind is not in the union or
  does not accept the value.
\<close>

definition castBool :: "string list \<Rightarrow> PrimitiveType list \<Rightarrow> 'f Value \<Rightarrow> ('f Error, 'f Value) outcome" where
  "castBool validTypes validTypeNames value =
     (if HasString validTypes (String_of BoolValueType)
      then (case assert_bool value of
              Some valueBool \<Rightarrow> Ok (Boolean valueBool)
            | None \<Rightarrow> InvalidPrimitive value (validTypeNames @ [PrimTypeBool]))
      else InvalidPrimitive value validTypeNames)"

definition castString :: "string list \<Rightarrow> PrimitiveType list \<Rightarrow> 'f Value \<Rightarrow> ('f Error, 'f Value) outcome" where
  "castString validTypes validTypeNames value =
     (if HasString validTypes (String_of StringValueType)
      then (case assert_string value of
              Some valueStr \<Rightarrow> Ok (Str valueStr)
            | None \<Rightarrow> castBool validTypes (validTypeNames @ [PrimTypeString]) value)
      else castBool validTypes validTypeNames value)"

definition castFloat :: "'f cast \<Rightarrow> string list \<Rightarrow> PrimitiveType list \<Rightarrow> 'f Value \<Rightarrow> ('f Error, 'f Value) outcome" where
  "castFloat lib validTypes validTypeNames value =
     (if HasString validTypes (String_of FloatValueType)
      then (case InterfaceToFloat64 lib value of
              Some valueFloat \<Rightarrow> Ok (Float64 valueFloat)
            | None \<Rightarrow> castString validTypes (validTypeNames @ [PrimTypeFloat]) value)
      else castString validTypes validTypeNames value)"

definition castUnion :: "'f cast \<Rightarrow> 'f Value \<Rightarrow> string \<Rightarrow> ('f Error, 'f Value) outcome" where
  "castUnion lib value valueTypeStr =
     (let validTypes = Split valueTypeStr CHR ''|''; validTypeNames = [] in
      if HasString validTypes (String_of IntegerValueType)
      then (case InterfaceToInt64 lib value of
              Some valueInt \<Rightarrow> Ok (Int64 valueInt)
            | None \<Rightarrow> castFloat lib validTypes (validTypeNames @ [PrimTypeInt]) value)
      else castFloat lib validTypes validTypeNames value)"

text \<open>
  The test for a generic map (lines 308-321 and 435-448): a type map of length one whose
  key is a string naming a valid type; the result is \<^verbatim>\<open>genericMapKeyType\<close> and
  \<^verbatim>\<open>genericMapValueType\<close>, and \<open>None\<close> is \<^verbatim>\<open>isGenericMap = false\<close>.
\<close>

definition genericMapOf :: "('f Value \<times> 'f Value) list \<Rightarrow> (string \<times> 'f Value) option" where
  "genericMapOf valueTypeMap =
     (if length valueTypeMap = 1
      then fold (\<lambda>(valueTypeKey, valueTypeVal) generic.
                   case assert_string valueTypeKey of
                     Some valueTypeKeyStr \<Rightarrow>
                       if isValidValueType valueTypeKeyStr
                       then Some (valueTypeKeyStr, valueTypeVal) else generic
                   | None \<Rightarrow> generic)
             valueTypeMap None
      else None)"

text \<open>
  \<^verbatim>\<open>CastValue\<close> (lines 248-378). \<^verbatim>\<open>valueMapCasted[k] = v\<close> is \<open>AList.update\<close>, which
  replaces the entry of an existing key and adds a new key at the end.
\<close>

function CastValue :: "'f cast \<Rightarrow> 'f Value \<Rightarrow> 'f Value \<Rightarrow> ('f Error, 'f Value) outcome" where
  "CastValue lib value valueType =
    (case ValidateValueType valueType of Fail err \<Rightarrow> Fail err | Panic \<Rightarrow> Panic | Ok u \<Rightarrow>
    (case ValidateValue value of Fail err \<Rightarrow> Fail err | Panic \<Rightarrow> Panic | Ok u' \<Rightarrow>
     if value = Null then Ok Null else
     (case assert_string valueType of
        Some valueTypeStr \<Rightarrow> castUnion lib value valueTypeStr
      | None \<Rightarrow>
     (case InterfaceToInterfaceInterfaceMap valueType of
        Some valueTypeMap \<Rightarrow>
          (case InterfaceToInterfaceInterfaceMap value of
             None \<Rightarrow> InvalidPrimitive value [PrimTypeMap]
           | Some valueMap \<Rightarrow>
               if length valueTypeMap = 0
               then (if length valueMap = 0 then Ok (MapOf [])
                     else Fail (Wrap (Error ErrorMustBeEmpty []) [UserStr (MapOf valueMap)]))
               else
               (case genericMapOf valueTypeMap of
                  Some (genericMapKeyType, genericMapValueType) \<Rightarrow>
                    (case range_loop valueMap []
                            (\<lambda>(valueKey, valueVal) valueMapCasted.
                               case CastValue lib valueKey (Str genericMapKeyType) of
                                 Fail err \<Rightarrow> Fail err
                               | Panic \<Rightarrow> Panic
                               | Ok valueKeyCasted \<Rightarrow>
                                   (case CastValue lib valueVal genericMapValueType of
                                      Fail err \<Rightarrow> Fail (Wrap err [UserStrStripped valueKey])
                                    | Panic \<Rightarrow> Panic
                                    | Ok valueValCasted \<Rightarrow>
                                        Ok (AList.update valueKeyCasted valueValCasted valueMapCasted)))
                     of Fail err \<Rightarrow> Fail err
                      | Panic \<Rightarrow> Panic
                      | Ok valueMapCasted \<Rightarrow> Ok (MapOf valueMapCasted))
                | None \<Rightarrow>
                    (case range_loop valueTypeMap []
                            (\<lambda>(valueKey, fieldType) valueMapCasted.
                               case map_of valueMap valueKey of
                                 None \<Rightarrow> Fail (Wrap (Error ErrorMustBeDefined []) [UserStrStripped valueKey])
                               | Some valueVal \<Rightarrow>
                                   (case CastValue lib valueVal fieldType of
                                      Fail err \<Rightarrow> Fail (Wrap err [UserStrStripped valueKey])
                                    | Panic \<Rightarrow> Panic
                                    | Ok valueValCasted \<Rightarrow>
                                        Ok (AList.update valueKey valueValCasted valueMapCasted)))
                     of Fail err \<Rightarrow> Fail err
                      | Panic \<Rightarrow> Panic
                      | Ok valueMapCasted \<Rightarrow>
                          (case range_loop valueMap ()
                                  (\<lambda>(valueKey, valueVal) u''.
                                     case map_of valueTypeMap valueKey of
                                       None \<Rightarrow> Fail (Error (ErrorUnsupportedKey valueKey) [])
                                     | Some fieldType \<Rightarrow> Ok ())
                           of Fail err \<Rightarrow> Fail err
                            | Panic \<Rightarrow> Panic
                            | Ok u'' \<Rightarrow> Ok (MapOf valueMapCasted)))))
      | None \<Rightarrow>
     (case InterfaceToStrSlice valueType of
        Some valueTypeStrs \<Rightarrow>
          (case valueTypeStrs of
             [] \<Rightarrow> Panic
           | valueTypeStr # rest \<Rightarrow>
               (case InterfaceToInterfaceSlice value of
                  None \<Rightarrow> InvalidPrimitive value [PrimTypeList]
                | Some valueSlice \<Rightarrow>
                    (case range_loop (enumerate 0 valueSlice) (replicate (length valueSlice) Null)
                            (\<lambda>(i, valueItem) valueSliceCasted.
                               case CastValue lib valueItem (Str valueTypeStr) of
                                 Fail err \<Rightarrow> Fail (Wrap err [Index i])
                               | Panic \<Rightarrow> Panic
                               | Ok valueItemCasted \<Rightarrow> Ok (valueSliceCasted[i := valueItemCasted]))
                     of Fail err \<Rightarrow> Fail err
                      | Panic \<Rightarrow> Panic
                      | Ok valueSliceCasted \<Rightarrow> Ok (Slice valueSliceCasted))))
      | None \<Rightarrow> Fail (Error (ErrorInvalidValueDataType valueType) []))))))"
  by pat_completeness auto
termination
proof (relation "measure (\<lambda>(lib, value, valueType). size value)")
  show "wf (measure (\<lambda>(lib, value, valueType). size value))" by simp
qed (auto dest: size_map_entry map_of_SomeD intro: size_slice_item [OF _ nth_mem]
      simp: in_set_enumerate_eq)


section \<open>The runtime-type matcher\<close>

text \<open>\<^verbatim>\<open>CheckValueRuntimeTypesMatch\<close> (lines 414-498).\<close>

function CheckValueRuntimeTypesMatch :: "'f Value \<Rightarrow> 'f Value \<Rightarrow> ('f Error, unit) outcome" where
  "CheckValueRuntimeTypesMatch runtimeType schemaType =
    (case assert_string schemaType of
       Some schemaTypeStr \<Rightarrow>
         (let validTypes = Split schemaTypeStr CHR ''|'' in
          case assert_string runtimeType of
            None \<Rightarrow> Fail (Error (ErrorUnsupportedDataType runtimeType (Str schemaTypeStr)) [])
          | Some runtimeTypeStr \<Rightarrow>
              range_loop (Split runtimeTypeStr CHR ''|'') ()
                (\<lambda>runtimeTypeOption u.
                   if \<not> HasString validTypes runtimeTypeOption
                   then Fail (Error (ErrorUnsupportedDataType (Str runtimeTypeStr) (Str schemaTypeStr)) [])
                   else Ok ()))
     | None \<Rightarrow>
    (case InterfaceToInterfaceInterfaceMap schemaType of
       Some schemaTypeMap \<Rightarrow>
         (case InterfaceToInterfaceInterfaceMap runtimeType of
            None \<Rightarrow> Fail (Error (ErrorUnsupportedDataType runtimeType (MapOf schemaTypeMap)) [])
          | Some runtimeTypeMap \<Rightarrow>
              (case genericMapOf schemaTypeMap of
                 Some (genericMapKeyType, genericMapValueType) \<Rightarrow>
                   range_loop runtimeTypeMap ()
                     (\<lambda>(runtimeTypeKey, runtimeTypeValue) u.
                        case CheckValueRuntimeTypesMatch runtimeTypeKey (Str genericMapKeyType) of
                          Fail err \<Rightarrow> Fail err
                        | Panic \<Rightarrow> Panic
                        | Ok u' \<Rightarrow>
                            (case CheckValueRuntimeTypesMatch runtimeTypeValue genericMapValueType of
                               Fail err \<Rightarrow> Fail (Wrap err [UserStrStripped runtimeTypeKey])
                             | Panic \<Rightarrow> Panic
                             | Ok u'' \<Rightarrow> Ok ()))
               | None \<Rightarrow>
                   (case range_loop schemaTypeMap ()
                           (\<lambda>(schemaTypeKey, schemaTypeValue) u.
                              case map_of runtimeTypeMap schemaTypeKey of
                                None \<Rightarrow> Fail (Wrap (Error ErrorMustBeDefined []) [UserStrStripped schemaTypeKey])
                              | Some runtimeTypeValue \<Rightarrow>
                                  (case CheckValueRuntimeTypesMatch runtimeTypeValue schemaTypeValue of
                                     Fail err \<Rightarrow> Fail (Wrap err [UserStrStripped schemaTypeKey])
                                   | Panic \<Rightarrow> Panic
                                   | Ok u' \<Rightarrow> Ok ()))
                    of Fail err \<Rightarrow> Fail err
                     | Panic \<Rightarrow> Panic
                     | Ok u \<Rightarrow>
                         range_loop runtimeTypeMap ()
                           (\<lambda>(runtimeTypeKey, runtimeTypeValue) u'.
                              case map_of schemaTypeMap runtimeTypeKey of
                                None \<Rightarrow> Fail (Error (ErrorUnsupportedKey runtimeTypeKey) [])
                              | Some schemaTypeValue \<Rightarrow> Ok ()))))
     | None \<Rightarrow>
    (case InterfaceToStrSlice schemaType of
       Some schemaTypeStrs \<Rightarrow>
         (case schemaTypeStrs of
            [] \<Rightarrow> Panic
          | schemaTypeStr0 # schemaRest \<Rightarrow>
              (let validTypes = Split schemaTypeStr0 CHR ''|'' in
               case InterfaceToStrSlice runtimeType of
                 None \<Rightarrow>
                   Fail (Error (ErrorUnsupportedDataType runtimeType (Slice (map Str schemaTypeStrs))) [])
               | Some runtimeTypeStrs \<Rightarrow>
                   (case runtimeTypeStrs of
                      [] \<Rightarrow> Panic
                    | runtimeTypeStr0 # runtimeRest \<Rightarrow>
                        range_loop (Split runtimeTypeStr0 CHR ''|'') ()
                          (\<lambda>runtimeTypeOption u.
                             if \<not> HasString validTypes runtimeTypeOption
                             then Fail (Error (ErrorUnsupportedDataType
                                          (Slice (map Str runtimeTypeStrs))
                                          (Slice (map Str schemaTypeStrs))) [])
                             else Ok ()))))
     | None \<Rightarrow> Fail (Error (ErrorInvalidValueDataType schemaType) []))))"
  by pat_completeness auto
termination
proof (relation "measure (\<lambda>(runtimeType, schemaType). size runtimeType)")
  show "wf (measure (\<lambda>(runtimeType, schemaType). size runtimeType))" by simp
qed (auto dest: size_map_entry map_of_SomeD)

text \<open>
  \<^verbatim>\<open>ValidateArgTypes\<close> (lines 171-182) and \<^verbatim>\<open>CheckArgRuntimeTypesMatch\<close> (lines
  380-412). A \<^verbatim>\<open>map[string]interface{}\<close> is the list of its entries, as above.
\<close>

definition ValidateArgTypes :: "(string \<times> 'f Value) list \<Rightarrow> ('f Error, unit) outcome" where
  "ValidateArgTypes argTypes =
     range_loop argTypes ()
       (\<lambda>(argName, valueType) u.
          if isValidValueType argName
          then Fail (Error (ErrorArgNameCannotBeType argName) [])
          else (case ValidateValueType valueType of
                  Fail err \<Rightarrow> Fail (Wrap err [Field argName])
                | Panic \<Rightarrow> Panic
                | Ok u' \<Rightarrow> Ok ()))"

definition CheckArgRuntimeTypesMatch ::
    "(string \<times> 'f Value) list \<Rightarrow> (string \<times> 'f Value) list \<Rightarrow> ('f Error, unit) outcome" where
  "CheckArgRuntimeTypesMatch argRuntimeTypes argSchemaTypes =
    (case ValidateArgTypes argSchemaTypes of Fail err \<Rightarrow> Fail err | Panic \<Rightarrow> Panic | Ok u \<Rightarrow>
    (case ValidateArgTypes argRuntimeTypes of Fail err \<Rightarrow> Fail err | Panic \<Rightarrow> Panic | Ok u' \<Rightarrow>
    (case range_loop argSchemaTypes ()
            (\<lambda>(argName, argSchemaType) u.
               if length argRuntimeTypes = 0
               then Fail (Error (ErrorMapMustBeDefined (map fst argSchemaTypes)) [])
               else (case map_of argRuntimeTypes argName of
                       None \<Rightarrow> Fail (Wrap (Error ErrorMustBeDefined []) [Field argName])
                     | Some argRuntimeType \<Rightarrow>
                         (case CheckValueRuntimeTypesMatch argRuntimeType argSchemaType of
                            Fail err \<Rightarrow> Fail (Wrap err [Field argName])
                          | Panic \<Rightarrow> Panic
                          | Ok u'' \<Rightarrow> Ok ())))
     of Fail err \<Rightarrow> Fail err
      | Panic \<Rightarrow> Panic
      | Ok u'' \<Rightarrow>
          range_loop argRuntimeTypes ()
            (\<lambda>(argName, argRuntimeType) u.
               case map_of argSchemaTypes argName of
                 None \<Rightarrow> Fail (Error (ErrorUnsupportedKey (Str argName)) [])
               | Some argSchemaType \<Rightarrow> Ok ()))))"

section \<open>The column-type subsystem\<close>

text \<open>\<^verbatim>\<open>ValidateColumnInputTypes\<close> (lines 48-71).\<close>

definition ValidateColumnInputTypes ::
    "string list \<Rightarrow> (string \<times> 'f Value) list \<Rightarrow> ('f Error, unit) outcome" where
  "ValidateColumnInputTypes columnTypeStrings columnTypes =
     range_loop columnTypes ()
       (\<lambda>(columnInputName, columnType) u.
          case assert_string columnType of
            Some columnTypeStr \<Rightarrow>
              if \<not> isValidColumnInputType columnTypeStrings columnTypeStr
              then Fail (Wrap (Error (ErrorInvalidColumnInputType (Str columnTypeStr)) [])
                           [Field columnInputName])
              else Ok ()
          | None \<Rightarrow>
              (case InterfaceToStrSlice columnType of
                 Some columnTypeStrs \<Rightarrow>
                   if length columnTypeStrs \<noteq> 1
                   then Fail (Wrap (Error (ErrorTypeListLength columnTypeStrs) [])
                                [Field columnInputName])
                   else (case columnTypeStrs of
                           [] \<Rightarrow> Panic
                         | columnTypeStr0 # rest \<Rightarrow>
                             if \<not> isValidColumnInputType columnTypeStrings columnTypeStr0
                             then Fail (Wrap (Error (ErrorInvalidColumnInputType
                                                      (Slice (map Str columnTypeStrs))) [])
                                          [Field columnInputName])
                             else Ok ())
               | None \<Rightarrow>
                   Fail (Wrap (Error (ErrorInvalidColumnInputType columnType) [])
                           [Field columnInputName])))"

section \<open>The union rule in the words of the specification\<close>

text \<open>
  Section 4.2 of the specification: "attempt casts in this fixed priority order,
  independent of the order kinds appear in the union: integer, float, string, bool; the
  first kind present in the union whose native coercion from the value succeeds wins",
  and when no kind accepts the value the cast fails with \<^verbatim>\<open>InvalidPrimitiveType\<close>
  "carrying the list of accepted kind names". \<open>cast_by_priority\<close> is this rule, written
  from these words; \<open>castUnion\<close> above is the code.
\<close>

fun native_coercion :: "'f cast \<Rightarrow> ValueType \<Rightarrow> 'f Value \<Rightarrow> 'f Value option" where
  "native_coercion lib IntegerValueType value = map_option Int64 (InterfaceToInt64 lib value)"
| "native_coercion lib FloatValueType value = map_option Float64 (InterfaceToFloat64 lib value)"
| "native_coercion lib StringValueType value = map_option Str (assert_string value)"
| "native_coercion lib BoolValueType value = map_option Boolean (assert_bool value)"

fun PrimType_of :: "ValueType \<Rightarrow> PrimitiveType" where
  "PrimType_of IntegerValueType = PrimTypeInt"
| "PrimType_of FloatValueType = PrimTypeFloat"
| "PrimType_of StringValueType = PrimTypeString"
| "PrimType_of BoolValueType = PrimTypeBool"

definition cast_priority :: "ValueType list" where
  "cast_priority = [IntegerValueType, FloatValueType, StringValueType, BoolValueType]"

definition cast_by_priority :: "'f cast \<Rightarrow> 'f Value \<Rightarrow> string \<Rightarrow> ('f Error, 'f Value) outcome" where
  "cast_by_priority lib value unionStr =
     (let present = filter (\<lambda>kind. String_of kind \<in> set (Split unionStr CHR ''|'')) cast_priority in
      case List.map_filter (\<lambda>kind. native_coercion lib kind value) present of
        casted # others \<Rightarrow> Ok casted
      | [] \<Rightarrow> Fail (Error (ErrorInvalidPrimitiveType value (map PrimType_of present)) []))"


text \<open>
  What \<open>ValidateColumnInputTypes\<close> accepts as the declared type of one column: a string,
  or a sequence holding one string, that is a union of column kinds.
\<close>

definition column_type_accepted :: "string list \<Rightarrow> 'f Value \<Rightarrow> bool" where
  "column_type_accepted cts columnType \<longleftrightarrow>
     (\<exists>s. (columnType = Str s \<or> columnType = Slice [Str s]) \<and> isValidColumnInputType cts s)"

section \<open>The loops of the caster, element by element\<close>

text \<open>
  For the proofs, each loop of \<open>CastValue\<close> is read as "compute the outcome of every
  element in turn, stop at the first that is not a success, then build the result":
  \<open>results\<close> collects the outcomes of the elements, \<open>cast_entry\<close>, \<open>cast_field\<close>,
  \<open>cast_item\<close> and \<open>declared_key\<close> are the bodies of the four loops (lines 325-335,
  341-351, 367-373 and 352-356) without the assignment to the result, \<open>collect\<close> and
  \<open>assign\<close> are the assignments \<^verbatim>\<open>valueMapCasted[k] = v\<close> of the generic and of the fixed
  map. The lemmas \<open>CastValue_generic\<close>, \<open>CastValue_fixed\<close> and \<open>CastValue_Slice\<close> below
  prove that \<open>CastValue\<close> is equal to this reading.
\<close>

fun results :: "('a \<Rightarrow> ('e, 'c) outcome) \<Rightarrow> 'a list \<Rightarrow> ('e, 'c list) outcome" where
  "results g [] = Ok []"
| "results g (x # xs) =
     (case g x of
        Ok c \<Rightarrow> (case results g xs of Ok cs \<Rightarrow> Ok (c # cs) | Fail e \<Rightarrow> Fail e | Panic \<Rightarrow> Panic)
      | Fail e \<Rightarrow> Fail e
      | Panic \<Rightarrow> Panic)"

definition cast_entry ::
    "'f cast \<Rightarrow> string \<Rightarrow> 'f Value \<Rightarrow> 'f Value \<times> 'f Value \<Rightarrow> ('f Error, 'f Value \<times> 'f Value) outcome" where
  "cast_entry lib genericMapKeyType genericMapValueType =
     (\<lambda>(valueKey, valueVal).
        case CastValue lib valueKey (Str genericMapKeyType) of
          Fail err \<Rightarrow> Fail err
        | Panic \<Rightarrow> Panic
        | Ok valueKeyCasted \<Rightarrow>
            (case CastValue lib valueVal genericMapValueType of
               Fail err \<Rightarrow> Fail (Wrap err [UserStrStripped valueKey])
             | Panic \<Rightarrow> Panic
             | Ok valueValCasted \<Rightarrow> Ok (valueKeyCasted, valueValCasted)))"

definition cast_field ::
    "'f cast \<Rightarrow> ('f Value \<times> 'f Value) list \<Rightarrow> 'f Value \<times> 'f Value \<Rightarrow> ('f Error, 'f Value) outcome" where
  "cast_field lib valueMap =
     (\<lambda>(valueKey, fieldType).
        case map_of valueMap valueKey of
          None \<Rightarrow> Fail (Wrap (Error ErrorMustBeDefined []) [UserStrStripped valueKey])
        | Some valueVal \<Rightarrow>
            (case CastValue lib valueVal fieldType of
               Fail err \<Rightarrow> Fail (Wrap err [UserStrStripped valueKey])
             | Panic \<Rightarrow> Panic
             | Ok valueValCasted \<Rightarrow> Ok valueValCasted))"

definition cast_item :: "'f cast \<Rightarrow> string \<Rightarrow> nat \<times> 'f Value \<Rightarrow> ('f Error, 'f Value) outcome" where
  "cast_item lib valueTypeStr =
     (\<lambda>(i, valueItem).
        case CastValue lib valueItem (Str valueTypeStr) of
          Fail err \<Rightarrow> Fail (Wrap err [Index i])
        | Panic \<Rightarrow> Panic
        | Ok valueItemCasted \<Rightarrow> Ok valueItemCasted)"

definition declared_key :: "('f Value \<times> 'f Value) list \<Rightarrow> 'f Value \<times> 'f Value \<Rightarrow> ('f Error, unit) outcome" where
  "declared_key valueTypeMap =
     (\<lambda>(valueKey, valueVal).
        case map_of valueTypeMap valueKey of
          None \<Rightarrow> Fail (Error (ErrorUnsupportedKey valueKey) [])
        | Some fieldType \<Rightarrow> Ok ())"

definition collect :: "('k \<times> 'v) list \<Rightarrow> ('k \<times> 'v) list" where
  "collect cs = fold (\<lambda>(k, v). AList.update k v) cs []"

definition assign :: "('k \<times> 't) list \<Rightarrow> 'v list \<Rightarrow> ('k \<times> 'v) list" where
  "assign fieldTypes cs = fold (\<lambda>(x, c). AList.update (fst x) c) (zip fieldTypes cs) []"

text \<open>
  \<open>casts\<close> says that a cast succeeds. \<open>match_entry\<close> and \<open>match_field\<close> are the bodies
  of the loops of \<open>CheckValueRuntimeTypesMatch\<close> over the entries of a runtime map
  matched against a generic map (lines 451-460) and over the fields of a fixed map
  (lines 465-474).
\<close>

definition casts :: "'f cast \<Rightarrow> 'f Value \<Rightarrow> 'f Value \<Rightarrow> bool" where
  "casts lib value valueType \<longleftrightarrow> (\<exists>casted. CastValue lib value valueType = Ok casted)"

definition match_entry :: "string \<Rightarrow> 'f Value \<Rightarrow> 'f Value \<times> 'f Value \<Rightarrow> ('f Error, unit) outcome" where
  "match_entry genericMapKeyType genericMapValueType =
     (\<lambda>(runtimeTypeKey, runtimeTypeValue).
        case CheckValueRuntimeTypesMatch runtimeTypeKey (Str genericMapKeyType) of
          Fail err \<Rightarrow> Fail err
        | Panic \<Rightarrow> Panic
        | Ok u' \<Rightarrow>
            (case CheckValueRuntimeTypesMatch runtimeTypeValue genericMapValueType of
               Fail err \<Rightarrow> Fail (Wrap err [UserStrStripped runtimeTypeKey])
             | Panic \<Rightarrow> Panic
             | Ok u'' \<Rightarrow> Ok ()))"

definition match_field :: "('f Value \<times> 'f Value) list \<Rightarrow> 'f Value \<times> 'f Value \<Rightarrow> ('f Error, unit) outcome" where
  "match_field runtimeTypeMap =
     (\<lambda>(schemaTypeKey, schemaTypeValue).
        case map_of runtimeTypeMap schemaTypeKey of
          None \<Rightarrow> Fail (Wrap (Error ErrorMustBeDefined []) [UserStrStripped schemaTypeKey])
        | Some runtimeTypeValue \<Rightarrow>
            (case CheckValueRuntimeTypesMatch runtimeTypeValue schemaTypeValue of
               Fail err \<Rightarrow> Fail (Wrap err [UserStrStripped schemaTypeKey])
             | Panic \<Rightarrow> Panic
             | Ok u' \<Rightarrow> Ok ()))"

section \<open>Go maps and canonical coercions\<close>

text \<open>
  A value of the model is a value of the Go program when every map in it has pairwise
  distinct keys and hashable keys: Go cannot use a slice or a map as the key of a map.
\<close>

fun hashable :: "'f Value \<Rightarrow> bool" where
  "hashable (Slice vs) = False"
| "hashable (MapOf m) = False"
| "hashable v = True"

fun go_value :: "'f Value \<Rightarrow> bool" where
  "go_value (Slice vs) = list_all go_value vs"
| "go_value (MapOf m) =
     (distinct (map fst m) \<and> list_all (\<lambda>(k, v). hashable k \<and> go_value v) m)"
| "go_value v = True"

text \<open>
  What the idempotence of casting needs of the numeric coercions, which are not under
  src/: an integer is read as itself, a float is read as itself, and a float that a value
  coerces to when that value does not coerce to an integer does not coerce to an integer
  either.
\<close>

definition canonical_coercions :: "'f cast \<Rightarrow> bool" where
  "canonical_coercions lib \<longleftrightarrow>
     (\<forall>i. InterfaceToInt64 lib (Int64 i) = Some i) \<and>
     (\<forall>f. InterfaceToFloat64 lib (Float64 f) = Some f) \<and>
     (\<forall>v f. InterfaceToInt64 lib v = None \<and> InterfaceToFloat64 lib v = Some f \<longrightarrow>
        InterfaceToInt64 lib (Float64 f) = None)"

section \<open>One map, enumerated in two orders\<close>





section \<open>Basic facts\<close>

declare CastValue.simps [simp del]
declare CheckValueRuntimeTypesMatch.simps [simp del]

lemma HasString_iff: "HasString list query \<longleftrightarrow> query \<in> set list"
  by (induction list) auto

lemma Split_not_Nil: "Split s sep \<noteq> []"
  by (induction s) (auto split: list.splits)

lemma isValidValueType_iff:
  "isValidValueType s \<longleftrightarrow> set (Split s CHR ''|'') \<subseteq> set ValueTypeStrings"
  by (auto simp: isValidValueType_def list_all_iff HasString_iff)

lemma strings_of_Some_iff: "strings_of vs = Some ss \<longleftrightarrow> vs = map Str ss"
proof (induction vs arbitrary: ss rule: strings_of.induct)
  case 1
  show ?case by auto
next
  case (2 s vs)
  show ?case
  proof (cases ss)
    case Nil
    then show ?thesis by simp
  next
    case (Cons a as)
    then show ?thesis using 2 [of as] by auto
  qed
qed (auto simp: map_eq_Cons_conv)

lemma range_loop_append:
  "range_loop (xs @ ys) s body =
     (case range_loop xs s body of
        Ok s' \<Rightarrow> range_loop ys s' body | Fail e \<Rightarrow> Fail e | Panic \<Rightarrow> Panic)"
  by (induction xs arbitrary: s) (auto split: outcome.splits)

lemma range_loop_unit_Ok_iff:
  "range_loop xs () body = Ok () \<longleftrightarrow> (\<forall>x \<in> set xs. body x () = Ok ())"
  by (induction xs) (auto split: outcome.splits)

lemma range_loop_no_Panic:
  "(\<And>x a. x \<in> set xs \<Longrightarrow> body x a \<noteq> Panic) \<Longrightarrow> range_loop xs s body \<noteq> Panic"
  by (induction xs arbitrary: s) (auto split: outcome.splits)

lemma ValidateValueType_no_Panic: "ValidateValueType t \<noteq> Panic"
proof (induction t)
  case (MapOf m)
  have key: "ValidateValueType k \<noteq> Panic" and val: "ValidateValueType v \<noteq> Panic"
    if "(k, v) \<in> set m" for k v
    using MapOf [OF that] by simp_all
  show ?case
    unfolding ValidateValueType.simps Let_def
    by (auto intro!: range_loop_no_Panic split: outcome.splits if_splits dest: key val)
qed (auto split: option.splits list.splits)

lemma ValidateValueType_Slice_iff:
  "ValidateValueType (Slice vs) = Ok () \<longleftrightarrow> (\<exists>s. vs = [Str s] \<and> isValidValueType s)"
  by (auto simp: strings_of_Some_iff length_Suc_conv split: option.splits list.splits)

lemma genericMapOf_Some_iff:
  "genericMapOf m = Some (kt, vt) \<longleftrightarrow> m = [(Str kt, vt)] \<and> isValidValueType kt"
proof (cases m)
  case Nil
  then show ?thesis by (simp add: genericMapOf_def)
next
  case (Cons p ps)
  obtain k v where p: "p = (k, v)" by (cases p)
  show ?thesis
    by (cases k) (auto simp: genericMapOf_def Cons p)
qed

lemma genericMapOf_None_iff:
  "genericMapOf m = None \<longleftrightarrow> \<not> (\<exists>kt vt. m = [(Str kt, vt)] \<and> isValidValueType kt)"
  using genericMapOf_Some_iff [of m] by (cases "genericMapOf m") auto

lemma isTypeKey_iff: "isTypeKey k \<longleftrightarrow> (\<exists>s. k = Str s \<and> isValidValueType s)"
  by (cases k) auto

lemma ValidateValueType_generic_iff:
  assumes "isValidValueType kt"
  shows "ValidateValueType (MapOf [(Str kt, vt)]) = Ok () \<longleftrightarrow> ValidateValueType vt = Ok ()"
  using assms by (auto split: outcome.splits)

lemma ValidateValueType_fixed_iff:
  assumes "genericMapOf m = None"
  shows "ValidateValueType (MapOf m) = Ok () \<longleftrightarrow>
           (\<forall>(k, t) \<in> set m. \<not> isTypeKey k \<and> ValidateValueType t = Ok ())"
proof (cases "list_ex (\<lambda>(key, val). isTypeKey key) m")
  case False
  then have "\<forall>(k, t) \<in> set m. \<not> isTypeKey k" by (auto simp: list_ex_iff)
  then show ?thesis using False
    by (auto simp: range_loop_unit_Ok_iff split: outcome.splits)
next
  case True
  then obtain k t where kt: "(k, t) \<in> set m" "isTypeKey k" by (auto simp: list_ex_iff)
  have "length m \<noteq> 1"
  proof
    assume "length m = 1"
    then have "m = [(k, t)]" using kt(1) by (cases m) auto
    then show False using kt(2) assms by (auto simp: genericMapOf_None_iff isTypeKey_iff)
  qed
  then show ?thesis using True kt by auto
qed

lemma ValidateValueType_MapOf_values:
  assumes "ValidateValueType (MapOf m) = Ok ()" and "(k, t) \<in> set m"
  shows "ValidateValueType t = Ok ()"
proof (cases "genericMapOf m")
  case None
  then show ?thesis using assms ValidateValueType_fixed_iff [of m] by auto
next
  case (Some g)
  obtain kt vt where "g = (kt, vt)" by (cases g)
  then have m: "m = [(Str kt, vt)]" "isValidValueType kt"
    using Some genericMapOf_Some_iff by auto
  then show ?thesis using assms ValidateValueType_generic_iff [of kt vt] by simp
qed


lemma CastValue_Null: "ValidateValueType t = Ok () \<Longrightarrow> CastValue lib Null t = Ok Null"
  by (subst CastValue.simps) (simp add: ValidateValue_def)

lemma CastValue_union:
  "isValidValueType s \<Longrightarrow> v \<noteq> Null \<Longrightarrow> CastValue lib v (Str s) = castUnion lib v s"
  by (subst CastValue.simps) (simp add: ValidateValue_def)

lemma range_loop_check:
  "range_loop xs () (\<lambda>x u. if \<not> P x then Fail e else Ok ()) =
     (if \<forall>x \<in> set xs. P x then Ok () else Fail e)"
  by (induction xs) auto

lemma CheckValueRuntimeTypesMatch_Str:
  "CheckValueRuntimeTypesMatch runtimeType (Str schemaTypeStr) =
     (case assert_string runtimeType of
        None \<Rightarrow> Fail (Error (ErrorUnsupportedDataType runtimeType (Str schemaTypeStr)) [])
      | Some runtimeTypeStr \<Rightarrow>
          if set (Split runtimeTypeStr CHR ''|'') \<subseteq> set (Split schemaTypeStr CHR ''|'')
          then Ok ()
          else Fail (Error (ErrorUnsupportedDataType (Str runtimeTypeStr) (Str schemaTypeStr)) []))"
  by (subst CheckValueRuntimeTypesMatch.simps)
     (auto simp: range_loop_check HasString_iff split: option.splits)

lemma assert_string_Some_iff: "assert_string v = Some s \<longleftrightarrow> v = Str s"
  by (cases v) auto


lemma spec_cast_simps [simp]:
  "InterfaceToInt64 spec_cast (Int64 i) = Some i"
  "InterfaceToInt64 spec_cast (Str s) = parse_int64 s"
  "InterfaceToInt64 spec_cast Null = None"
  "InterfaceToInt64 spec_cast (Float64 f) = None"
  "InterfaceToInt64 spec_cast (Boolean b) = None"
  "InterfaceToInt64 spec_cast (Slice vs) = None"
  "InterfaceToInt64 spec_cast (MapOf m) = None"
  "InterfaceToFloat64 spec_cast (Float64 f) = Some f"
  "InterfaceToFloat64 spec_cast Null = None"
  "InterfaceToFloat64 spec_cast (Int64 i) = None"
  "InterfaceToFloat64 spec_cast (Str s) = None"
  "InterfaceToFloat64 spec_cast (Boolean b) = None"
  "InterfaceToFloat64 spec_cast (Slice vs) = None"
  "InterfaceToFloat64 spec_cast (MapOf m) = None"
  by (simp_all add: spec_cast_def)

section \<open>The claims\<close>

subsection \<open>Matching a runtime type against a union\<close>

text \<open>
  Claim C2. For every runtime type and every schema string,
  \<^verbatim>\<open>CheckValueRuntimeTypesMatch\<close> succeeds exactly when the runtime type is a string
  and every kind it names (its pieces between the pipes) is among the kinds the schema
  string names: containment, not overlap. Every other runtime type fails with
  \<^verbatim>\<open>UnsupportedDataType\<close>. So \<^verbatim>\<open>INT\<close> matches \<^verbatim>\<open>INT|FLOAT\<close>, and
  \<^verbatim>\<open>INT|STRING\<close> against \<^verbatim>\<open>INT\<close> fails with \<^verbatim>\<open>UnsupportedDataType\<close>.
\<close>

theorem union_match_is_containment:
  "CheckValueRuntimeTypesMatch (runtimeType :: 'f Value) (Str schemaTypeStr) =
     (if \<exists>runtimeTypeStr. runtimeType = Str runtimeTypeStr \<and>
           set (Split runtimeTypeStr CHR ''|'') \<subseteq> set (Split schemaTypeStr CHR ''|'')
      then Ok ()
      else Fail (Error (ErrorUnsupportedDataType runtimeType (Str schemaTypeStr)) []))
   \<and> CheckValueRuntimeTypesMatch (Str ''INT'' :: 'f Value) (Str ''INT|FLOAT'') = Ok ()
   \<and> CheckValueRuntimeTypesMatch (Str ''INT|STRING'' :: 'f Value) (Str ''INT'') =
       Fail (Error (ErrorUnsupportedDataType (Str ''INT|STRING'') (Str ''INT'')) [])"
  by (cases runtimeType) (simp_all add: CheckValueRuntimeTypesMatch_Str)

theorem union_match_is_containment_witness:
  "CheckValueRuntimeTypesMatch (Str ''FLOAT|INT'') (Str ''INT|FLOAT'') = (Ok () :: (unit Error, unit) outcome)
   \<and> CheckValueRuntimeTypesMatch (Str ''INT|BOOL'') (Str ''INT|FLOAT'') =
       (Fail (Error (ErrorUnsupportedDataType (Str ''INT|BOOL'') (Str ''INT|FLOAT'')) [])  :: (unit Error, unit) outcome)
   \<and> CheckValueRuntimeTypesMatch (Int64 3) (Str ''INT'') =
       (Fail (Error (ErrorUnsupportedDataType (Int64 3) (Str ''INT'')) []) :: (unit Error, unit) outcome)"
  using union_match_is_containment [of "Str ''FLOAT|INT'' :: unit Value" "''INT|FLOAT''"]
    union_match_is_containment [of "Str ''INT|BOOL'' :: unit Value" "''INT|FLOAT''"]
    union_match_is_containment [of "Int64 3 :: unit Value" "''INT''"]
  by simp


subsection \<open>Casting null\<close>

text \<open>
  Claim C4. For every schema, that is every type expression that \<^verbatim>\<open>ValidateValueType\<close>
  accepts, \<^verbatim>\<open>CastValue\<close> of the null value returns null: the test
  \<^verbatim>\<open>value == nil\<close> comes before the value is compared with the shape of the schema, so
  null is returned for a union, a list and a map schema alike.
\<close>

theorem null_casts_to_null:
  "ValidateValueType schema = Ok () \<Longrightarrow> CastValue lib Null schema = Ok Null"
  by (rule CastValue_Null)

theorem null_casts_to_null_witness:
  "ValidateValueType (MapOf [(Str ''x'', Slice [Str ''INT|FLOAT''])] :: unit Value) = Ok ()
   \<and> CastValue spec_cast Null (MapOf [(Str ''x'', Slice [Str ''INT|FLOAT''])] :: unit Value) = Ok Null"
  using null_casts_to_null [of "MapOf [(Str ''x'', Slice [Str ''INT|FLOAT''])] :: unit Value" spec_cast]
  by (simp add: isValidValueType_def ValueTypeStrings_def)

subsection \<open>Casting against a union\<close>

lemma castUnion_by_priority: "castUnion lib value unionStr = cast_by_priority lib value unionStr"
  unfolding castUnion_def castFloat_def castString_def castBool_def cast_by_priority_def
    cast_priority_def InvalidPrimitive_def Let_def HasString_iff
  by (simp add: List.map_filter_simps split: option.splits)

lemma castUnion_same_kinds:
  "set (Split unionStr CHR ''|'') = set (Split unionStr' CHR ''|'') \<Longrightarrow>
     castUnion lib value unionStr = castUnion lib value unionStr'"
  unfolding castUnion_def castFloat_def castString_def castBool_def Let_def HasString_iff
  by simp

text \<open>
  Claim C1. Section 4.2 of the specification gives the rule for the null value first
  ("result is null for any schema") and the rule for unions after it, so the union rule
  is the rule for the values that are not null. For every such value and every valid
  union string, \<^verbatim>\<open>CastValue\<close> is the rule of the specification: the kinds are tried in
  the order integer, float, string, bool, whatever their order in the string; the first
  kind that is in the union and whose coercion accepts the value gives the result; when
  none does, the cast fails with \<^verbatim>\<open>InvalidPrimitiveType\<close> carrying the value and the
  names of the kinds of the union, in priority order. Two valid union strings that name
  the same kinds cast every value alike, and the null value is returned as null. With
  the integer coercion of the specification, \<^verbatim>\<open>CastValue("5", "INT|STRING")\<close> is the
  integer 5 and not the string.
\<close>

theorem union_cast_by_priority:
  assumes "isValidValueType unionStr"
  shows "(value \<noteq> Null \<longrightarrow> CastValue lib value (Str unionStr) = cast_by_priority lib value unionStr)
    \<and> (set (Split unionStr CHR ''|'') = set (Split unionStr' CHR ''|'') \<longrightarrow>
         CastValue lib value (Str unionStr) = CastValue lib value (Str unionStr'))
    \<and> CastValue lib (Null :: 'f Value) (Str unionStr) = Ok Null
    \<and> CastValue spec_cast (Str ''5'' :: 'f Value) (Str ''INT|STRING'') = Ok (Int64 5)"
proof (intro conjI impI)
  assume "value \<noteq> Null"
  then show "CastValue lib value (Str unionStr) = cast_by_priority lib value unionStr"
    using assms by (simp add: CastValue_union castUnion_by_priority)
next
  assume same: "set (Split unionStr CHR ''|'') = set (Split unionStr' CHR ''|'')"
  then have valid': "isValidValueType unionStr'"
    using assms by (simp add: isValidValueType_iff)
  show "CastValue lib value (Str unionStr) = CastValue lib value (Str unionStr')"
  proof (cases "value = Null")
    case True
    then show ?thesis using assms valid' by (simp add: CastValue_Null)
  next
    case False
    then show ?thesis
      using assms valid' castUnion_same_kinds [OF same] by (simp add: CastValue_union)
  qed
next
  show "CastValue lib (Null :: 'f Value) (Str unionStr) = Ok Null"
    using assms by (simp add: CastValue_Null)
next
  have "isValidValueType ''INT|STRING''"
    by (simp add: isValidValueType_def ValueTypeStrings_def)
  then show "CastValue spec_cast (Str ''5'' :: 'f Value) (Str ''INT|STRING'') = Ok (Int64 5)"
    by (simp add: CastValue_union castUnion_def parse_int64_def digit_of_def)
qed

theorem union_cast_by_priority_witness:
  "isValidValueType ''STRING|INT''
   \<and> (Str ''5'' :: unit Value) \<noteq> Null
   \<and> CastValue spec_cast (Str ''5'' :: unit Value) (Str ''STRING|INT'') = Ok (Int64 5)
   \<and> CastValue spec_cast (Str ''5'' :: unit Value) (Str ''INT|STRING'') = Ok (Int64 5)
   \<and> CastValue spec_cast (Boolean True :: unit Value) (Str ''STRING|INT'') =
       Fail (Error (ErrorInvalidPrimitiveType (Boolean True) [PrimTypeInt, PrimTypeString]) [])"
proof -
  have valid: "isValidValueType ''STRING|INT''"
    by (simp add: isValidValueType_def ValueTypeStrings_def)
  have five: "CastValue spec_cast (Str ''5'' :: unit Value) (Str ''STRING|INT'') = Ok (Int64 5)"
    using union_cast_by_priority [OF valid, of "Str ''5'' :: unit Value" spec_cast, THEN conjunct1]
    by (simp add: cast_by_priority_def cast_priority_def List.map_filter_simps
        parse_int64_def digit_of_def)
  have other: "CastValue spec_cast (Str ''5'' :: unit Value) (Str ''INT|STRING'') = Ok (Int64 5)"
    using union_cast_by_priority [OF valid, of "Str ''5'' :: unit Value" spec_cast "''INT|STRING''",
        THEN conjunct2, THEN conjunct1] five
    by (simp add: insert_commute)
  have none: "CastValue spec_cast (Boolean True :: unit Value) (Str ''STRING|INT'') =
       Fail (Error (ErrorInvalidPrimitiveType (Boolean True) [PrimTypeInt, PrimTypeString]) [])"
    using union_cast_by_priority [OF valid, of "Boolean True :: unit Value" spec_cast, THEN conjunct1]
    by (simp add: cast_by_priority_def cast_priority_def List.map_filter_simps)
  show ?thesis using valid five other none by simp
qed


subsection \<open>Declared column input types\<close>

lemma isValidColumnInputType_iff:
  "isValidColumnInputType cts s \<longleftrightarrow> set (Split s CHR ''|'') \<subseteq> set cts"
  by (auto simp: isValidColumnInputType_def list_all_iff HasString_iff)

lemma InterfaceToStrSlice_Some_iff:
  "InterfaceToStrSlice v = Some ss \<longleftrightarrow> (v = Null \<and> ss = []) \<or> v = Slice (map Str ss)"
  by (cases v) (auto simp: strings_of_Some_iff)

lemma InterfaceToInterfaceInterfaceMap_Some_iff:
  "InterfaceToInterfaceInterfaceMap v = Some m \<longleftrightarrow> (v = Null \<and> m = []) \<or> v = MapOf m"
  by (cases v) auto

lemma InterfaceToInterfaceSlice_Some_iff:
  "InterfaceToInterfaceSlice v = Some vs \<longleftrightarrow> (v = Null \<and> vs = []) \<or> v = Slice vs"
  by (cases v) auto

lemma column_entry_Ok_iff:
  "(case assert_string columnType of
      Some columnTypeStr \<Rightarrow>
        if \<not> isValidColumnInputType cts columnTypeStr
        then Fail (e1 columnTypeStr)
        else Ok ()
    | None \<Rightarrow>
        (case InterfaceToStrSlice columnType of
           Some columnTypeStrs \<Rightarrow>
             if length columnTypeStrs \<noteq> 1
             then Fail (e2 columnTypeStrs)
             else (case columnTypeStrs of
                     [] \<Rightarrow> Panic
                   | columnTypeStr0 # rest \<Rightarrow>
                       if \<not> isValidColumnInputType cts columnTypeStr0
                       then Fail (e3 columnTypeStrs)
                       else Ok ())
         | None \<Rightarrow> Fail e4)) = Ok ()
   \<longleftrightarrow> column_type_accepted cts columnType"
  by (cases columnType)
     (auto simp: column_type_accepted_def strings_of_Some_iff length_Suc_conv
           split: option.splits list.splits)

lemma ValidateColumnInputTypes_Ok_iff:
  "ValidateColumnInputTypes cts columnTypes = Ok () \<longleftrightarrow>
     (\<forall>(name, columnType) \<in> set columnTypes. column_type_accepted cts columnType)"
  unfolding ValidateColumnInputTypes_def range_loop_unit_Ok_iff
  by (simp add: column_entry_Ok_iff split_beta)

text \<open>
  Claim C8, as amended. \<^verbatim>\<open>ValidateColumnInputTypes\<close> accepts a map of declared column
  types exactly when every declared type is a pipe-union string over the
  \<^verbatim>\<open>ColumnType\<close> names, or a sequence holding exactly one such string (lines 57-65);
  a map-shaped type expression is rejected with \<^verbatim>\<open>InvalidColumnInputType\<close>. The table
  of column kind names is the parameter \<open>cts\<close>.
\<close>

theorem column_input_types_grammar:
  "(ValidateColumnInputTypes cts columnTypes = Ok () \<longleftrightarrow>
      (\<forall>(name, columnType) \<in> set columnTypes.
         \<exists>s. (columnType = Str s \<or> columnType = Slice [Str s]) \<and>
             set (Split s CHR ''|'') \<subseteq> set cts))
   \<and> ValidateColumnInputTypes cts ((name, MapOf m) # rest) =
       Fail (Error (ErrorInvalidColumnInputType (MapOf m)) [Field name])"
  by (simp add: ValidateColumnInputTypes_Ok_iff column_type_accepted_def
      isValidColumnInputType_iff)
     (simp add: ValidateColumnInputTypes_def Wrap_def)

theorem column_input_types_grammar_witness:
  "ValidateColumnInputTypes [''INT_COLUMN'', ''FLOAT_COLUMN'']
      [(''a'', Str ''INT_COLUMN|FLOAT_COLUMN'' :: unit Value), (''b'', Slice [Str ''FLOAT_COLUMN''])] = Ok ()
   \<and> ValidateColumnInputTypes [''INT_COLUMN'', ''FLOAT_COLUMN'']
      [(''a'', MapOf [(Str ''INT_COLUMN'', Str ''INT_COLUMN'')] :: unit Value)] =
       Fail (Error (ErrorInvalidColumnInputType (MapOf [(Str ''INT_COLUMN'', Str ''INT_COLUMN'')])) [Field ''a''])"
  using column_input_types_grammar [of "[''INT_COLUMN'', ''FLOAT_COLUMN'']"
      "[(''a'', Str ''INT_COLUMN|FLOAT_COLUMN'' :: unit Value), (''b'', Slice [Str ''FLOAT_COLUMN''])]"
      "''a''" "[(Str ''INT_COLUMN'', Str ''INT_COLUMN'')]" "[]"]
  by simp

text \<open>
  The claim as stated accepts no list-shaped type expression; the code accepts the
  singleton list of a valid union.
\<close>

theorem column_list_type_counterexample:
  "ValidateColumnInputTypes [''INT_COLUMN''] [(''col'', Slice [Str ''INT_COLUMN''] :: unit Value)] = Ok ()"
  by (simp add: ValidateColumnInputTypes_def isValidColumnInputType_def)

subsection \<open>Matching a runtime type against a list schema\<close>

lemma outcome_cases3: "r = Ok () \<or> (\<exists>e. r = Fail e) \<or> r = Panic" for r :: "('e, unit) outcome"
  by (cases r) auto

lemma strings_of_map_Str [simp]: "strings_of (map Str ss) = Some ss"
  by (simp add: strings_of_Some_iff)

lemma CheckValueRuntimeTypesMatch_Slice:
  "CheckValueRuntimeTypesMatch r (Slice elems) =
     (case strings_of elems of
        None \<Rightarrow> Fail (Error (ErrorInvalidValueDataType (Slice elems)) [])
      | Some [] \<Rightarrow> Panic
      | Some (s0 # srest) \<Rightarrow>
          (case InterfaceToStrSlice r of
             None \<Rightarrow> Fail (Error (ErrorUnsupportedDataType r (Slice elems)) [])
           | Some [] \<Rightarrow> Panic
           | Some (r0 # rrest) \<Rightarrow>
               if set (Split r0 CHR ''|'') \<subseteq> set (Split s0 CHR ''|'') then Ok ()
               else Fail (Error (ErrorUnsupportedDataType (Slice (map Str (r0 # rrest))) (Slice elems)) [])))"
  by (subst CheckValueRuntimeTypesMatch.simps)
     (auto simp: range_loop_check HasString_iff strings_of_Some_iff
           split: option.splits list.splits)

lemma CheckValueRuntimeTypesMatch_MapOf:
  "CheckValueRuntimeTypesMatch runtimeType (MapOf schemaTypeMap) =
     (case InterfaceToInterfaceInterfaceMap runtimeType of
            None \<Rightarrow> Fail (Error (ErrorUnsupportedDataType runtimeType (MapOf schemaTypeMap)) [])
          | Some runtimeTypeMap \<Rightarrow>
              (case genericMapOf schemaTypeMap of
                 Some (genericMapKeyType, genericMapValueType) \<Rightarrow>
                   range_loop runtimeTypeMap ()
                     (\<lambda>(runtimeTypeKey, runtimeTypeValue) u.
                        case CheckValueRuntimeTypesMatch runtimeTypeKey (Str genericMapKeyType) of
                          Fail err \<Rightarrow> Fail err
                        | Panic \<Rightarrow> Panic
                        | Ok u' \<Rightarrow>
                            (case CheckValueRuntimeTypesMatch runtimeTypeValue genericMapValueType of
                               Fail err \<Rightarrow> Fail (Wrap err [UserStrStripped runtimeTypeKey])
                             | Panic \<Rightarrow> Panic
                             | Ok u'' \<Rightarrow> Ok ()))
               | None \<Rightarrow>
                   (case range_loop schemaTypeMap ()
                           (\<lambda>(schemaTypeKey, schemaTypeValue) u.
                              case map_of runtimeTypeMap schemaTypeKey of
                                None \<Rightarrow> Fail (Wrap (Error ErrorMustBeDefined []) [UserStrStripped schemaTypeKey])
                              | Some runtimeTypeValue \<Rightarrow>
                                  (case CheckValueRuntimeTypesMatch runtimeTypeValue schemaTypeValue of
                                     Fail err \<Rightarrow> Fail (Wrap err [UserStrStripped schemaTypeKey])
                                   | Panic \<Rightarrow> Panic
                                   | Ok u' \<Rightarrow> Ok ()))
                    of Fail err \<Rightarrow> Fail err
                     | Panic \<Rightarrow> Panic
                     | Ok u \<Rightarrow>
                         range_loop runtimeTypeMap ()
                           (\<lambda>(runtimeTypeKey, runtimeTypeValue) u'.
                              case map_of schemaTypeMap runtimeTypeKey of
                                None \<Rightarrow> Fail (Error (ErrorUnsupportedKey runtimeTypeKey) [])
                              | Some schemaTypeValue \<Rightarrow> Ok ()))))"
  by (subst CheckValueRuntimeTypesMatch.simps) simp

lemma CheckValueRuntimeTypesMatch_other:
  "CheckValueRuntimeTypesMatch r (Int64 i) = Fail (Error (ErrorInvalidValueDataType (Int64 i)) [])"
  "CheckValueRuntimeTypesMatch r (Float64 f) = Fail (Error (ErrorInvalidValueDataType (Float64 f)) [])"
  "CheckValueRuntimeTypesMatch r (Boolean b) = Fail (Error (ErrorInvalidValueDataType (Boolean b)) [])"
  by (subst CheckValueRuntimeTypesMatch.simps, simp)+

lemma ValidateValueType_not_Ok [simp]:
  "ValidateValueType Null \<noteq> Ok ()"
  "ValidateValueType (Int64 i) \<noteq> Ok ()"
  "ValidateValueType (Float64 f) \<noteq> Ok ()"
  "ValidateValueType (Boolean b) \<noteq> Ok ()"
  by (simp_all add: Wrap_def)

lemma ValidateArgTypes_no_Panic: "ValidateArgTypes argTypes \<noteq> Panic"
  unfolding ValidateArgTypes_def
  by (rule range_loop_no_Panic)
     (auto split: outcome.splits if_splits simp: ValidateValueType_no_Panic)

lemma ValidateArgTypes_Ok_iff:
  "ValidateArgTypes argTypes = Ok () \<longleftrightarrow>
     (\<forall>(argName, valueType) \<in> set argTypes.
        \<not> isValidValueType argName \<and> ValidateValueType valueType = Ok ())"
  unfolding ValidateArgTypes_def range_loop_unit_Ok_iff
  by (rule ball_cong [OF refl]) (auto split: outcome.splits if_splits)

lemma CheckArgRuntimeTypesMatch_invalid_runtime:
  assumes "(name, t) \<in> set argRuntimeTypes" and "ValidateValueType t \<noteq> Ok ()"
  shows "\<exists>e. CheckArgRuntimeTypesMatch argRuntimeTypes argSchemaTypes = Fail e"
proof -
  have "ValidateArgTypes argRuntimeTypes \<noteq> Ok ()"
    using assms by (auto simp: ValidateArgTypes_Ok_iff)
  then obtain e where e: "ValidateArgTypes argRuntimeTypes = Fail e"
    using outcome_cases3 [of "ValidateArgTypes argRuntimeTypes"] ValidateArgTypes_no_Panic [of argRuntimeTypes]
    by auto
  show ?thesis
    using outcome_cases3 [of "ValidateArgTypes argSchemaTypes"] ValidateArgTypes_no_Panic [of argSchemaTypes] e
    by (auto simp: CheckArgRuntimeTypesMatch_def)
qed

lemma match_list_direct:
  "CheckValueRuntimeTypesMatch r (Slice (Str s0 # map Str srest)) = Ok () \<longleftrightarrow>
     (\<exists>r0 rrest. r = Slice (Str r0 # map Str rrest) \<and>
        CheckValueRuntimeTypesMatch (Str r0 :: 'f Value) (Str s0) = Ok ())"
proof -
  have s: "strings_of (Str s0 # map Str srest :: 'f Value list) = Some (s0 # srest)"
    using strings_of_Some_iff [of "Str s0 # map Str srest" "s0 # srest"] by simp
  show ?thesis
    unfolding CheckValueRuntimeTypesMatch_Slice s
    by (cases r)
       (auto simp: CheckValueRuntimeTypesMatch_Str strings_of_Some_iff
             split: option.splits list.splits)
qed

lemma match_list_validated:
  assumes "ValidateValueType r = Ok ()" and "ValidateValueType (Slice elems) = Ok ()"
  shows "CheckValueRuntimeTypesMatch r (Slice elems) = Ok () \<longleftrightarrow>
     (\<exists>r0 s0. r = Slice [Str r0] \<and> elems = [Str s0] \<and>
        CheckValueRuntimeTypesMatch (Str r0 :: 'f Value) (Str s0) = Ok ())"
proof -
  obtain s0 where elems: "elems = [Str s0]"
    using assms(2) ValidateValueType_Slice_iff [of elems] by blast
  show ?thesis
  proof
    assume "CheckValueRuntimeTypesMatch r (Slice elems) = Ok ()"
    then obtain r0 rrest where r: "r = Slice (Str r0 # map Str rrest)"
        and ok: "CheckValueRuntimeTypesMatch (Str r0 :: 'f Value) (Str s0) = Ok ()"
      using match_list_direct [of r s0 "[]"] elems by auto
    have "rrest = []"
      using assms(1) r ValidateValueType_Slice_iff [of "Str r0 # map Str rrest"] by auto
    then show "\<exists>r0 s0. r = Slice [Str r0] \<and> elems = [Str s0] \<and>
        CheckValueRuntimeTypesMatch (Str r0 :: 'f Value) (Str s0) = Ok ()"
      using r ok elems by auto
  next
    assume "\<exists>r0 s0. r = Slice [Str r0] \<and> elems = [Str s0] \<and>
        CheckValueRuntimeTypesMatch (Str r0 :: 'f Value) (Str s0) = Ok ()"
    then show "CheckValueRuntimeTypesMatch r (Slice elems) = Ok ()"
      using match_list_direct [of r _ "[]"] by auto
  qed
qed

text \<open>
  Claim C5, as amended. Against a list schema (a sequence of strings with first element
  \<open>s0\<close>), \<^verbatim>\<open>CheckValueRuntimeTypesMatch\<close> succeeds exactly when the runtime type is a
  non-empty sequence of strings whose first element matches \<open>s0\<close> as a union matches a
  union; it reads no other element and checks no length. Where both sides have passed
  \<^verbatim>\<open>ValidateValueType\<close>, the runtime type is a singleton sequence and its sole element
  is matched against the sole element of the schema. A sequence of any other length is
  rejected by that validation, which \<^verbatim>\<open>CheckArgRuntimeTypesMatch\<close> applies to every
  runtime type before it matches.
\<close>

theorem list_match_first_elements:
  "(CheckValueRuntimeTypesMatch r (Slice (Str s0 # map Str srest)) = Ok () \<longleftrightarrow>
      (\<exists>r0 rrest. r = Slice (Str r0 # map Str rrest) \<and>
         CheckValueRuntimeTypesMatch (Str r0 :: 'f Value) (Str s0) = Ok ()))
   \<and> (ValidateValueType r = Ok () \<and> ValidateValueType (Slice elems) = Ok () \<longrightarrow>
        (CheckValueRuntimeTypesMatch r (Slice elems) = Ok () \<longleftrightarrow>
           (\<exists>r0 e0. r = Slice [Str r0] \<and> elems = [Str e0] \<and>
              CheckValueRuntimeTypesMatch (Str r0 :: 'f Value) (Str e0) = Ok ())))
   \<and> ((name, Slice relems) \<in> set argRuntimeTypes \<and> length relems \<noteq> 1 \<longrightarrow>
        (\<exists>e. CheckArgRuntimeTypesMatch argRuntimeTypes argSchemaTypes = Fail e))"
proof (intro conjI impI)
  show "CheckValueRuntimeTypesMatch r (Slice (Str s0 # map Str srest)) = Ok () \<longleftrightarrow>
      (\<exists>r0 rrest. r = Slice (Str r0 # map Str rrest) \<and>
         CheckValueRuntimeTypesMatch (Str r0 :: 'f Value) (Str s0) = Ok ())"
    by (rule match_list_direct)
next
  assume "ValidateValueType r = Ok () \<and> ValidateValueType (Slice elems) = Ok ()"
  then show "CheckValueRuntimeTypesMatch r (Slice elems) = Ok () \<longleftrightarrow>
           (\<exists>r0 e0. r = Slice [Str r0] \<and> elems = [Str e0] \<and>
              CheckValueRuntimeTypesMatch (Str r0 :: 'f Value) (Str e0) = Ok ())"
    using match_list_validated by blast
next
  assume a: "(name, Slice relems) \<in> set argRuntimeTypes \<and> length relems \<noteq> 1"
  then have "ValidateValueType (Slice relems) \<noteq> Ok ()"
    using ValidateValueType_Slice_iff [of relems] by auto
  then show "\<exists>e. CheckArgRuntimeTypesMatch argRuntimeTypes argSchemaTypes = Fail e"
    using a CheckArgRuntimeTypesMatch_invalid_runtime by blast
qed

theorem list_match_first_elements_witness:
  "CheckValueRuntimeTypesMatch (Slice [Str ''INT''] :: unit Value) (Slice [Str ''INT|FLOAT'']) = Ok ()
   \<and> ValidateValueType (Slice [Str ''INT''] :: unit Value) = Ok ()
   \<and> ValidateValueType (Slice [Str ''INT|FLOAT''] :: unit Value) = Ok ()
   \<and> (\<exists>e. CheckArgRuntimeTypesMatch [(''x'', Slice [Str ''INT'', Str ''INT''] :: unit Value)]
              [(''x'', Slice [Str ''INT|FLOAT''])] = Fail e)"
  using list_match_first_elements [of "Slice [Str ''INT''] :: unit Value" "''INT|FLOAT''" "[]"
      "[Str ''INT|FLOAT'']" "''x''" "[Str ''INT'', Str ''INT'']"
      "[(''x'', Slice [Str ''INT'', Str ''INT''])]" "[(''x'', Slice [Str ''INT|FLOAT''])]"]
  by (simp add: CheckValueRuntimeTypesMatch_Str isValidValueType_def ValueTypeStrings_def)

text \<open>
  The claim as stated has \<^verbatim>\<open>CheckValueRuntimeTypesMatch\<close> reject a runtime sequence of
  any length but one; called with a sequence of two strings it accepts on the first.
\<close>

theorem list_match_longer_runtime_counterexample:
  "CheckValueRuntimeTypesMatch (Slice [Str ''INT'', Str ''BOGUS''] :: unit Value) (Slice [Str ''INT'']) = Ok ()"
  by (simp add: CheckValueRuntimeTypesMatch_Slice)



subsection \<open>The index without a length check\<close>

lemma map_of_in_set: "map_of m k = Some v \<Longrightarrow> (k, v) \<in> set m"
  by (rule map_of_SomeD)

lemma validated_match_no_Panic:
  "ValidateValueType (r :: 'f Value) = Ok () \<Longrightarrow> ValidateValueType s = Ok () \<Longrightarrow>
     CheckValueRuntimeTypesMatch r s \<noteq> Panic"
proof (induction "size r" arbitrary: r s rule: less_induct)
  case less
  show ?case
  proof (cases s)
    case (Str schemaTypeStr)
    then show ?thesis
      by (simp add: CheckValueRuntimeTypesMatch_Str split: option.splits)
  next
    case (Slice elems)
    then obtain s0 where elems: "elems = [Str s0]"
      using less.prems(2) ValidateValueType_Slice_iff [of elems] by blast
    show ?thesis
    proof (cases "InterfaceToStrSlice r")
      case None
      then show ?thesis using Slice elems by (simp add: CheckValueRuntimeTypesMatch_Slice)
    next
      case (Some rs)
      then have "r = Slice (map Str rs)"
        using less.prems(1) by (auto simp: InterfaceToStrSlice_Some_iff)
      then have "length rs = 1"
        using less.prems(1) ValidateValueType_Slice_iff [of "map Str rs"] by auto
      then obtain r0 where "rs = [r0]" by (cases rs) auto
      then show ?thesis using Slice elems Some by (simp add: CheckValueRuntimeTypesMatch_Slice)
    qed
  next
    case (MapOf sm)
    show ?thesis
    proof (cases "InterfaceToInterfaceInterfaceMap r")
      case None
      then show ?thesis using MapOf by (simp add: CheckValueRuntimeTypesMatch_MapOf)
    next
      case (Some rm)
      then have r: "r = MapOf rm"
        using less.prems(1) by (auto simp: InterfaceToInterfaceInterfaceMap_Some_iff)
      have sub: "CheckValueRuntimeTypesMatch v t \<noteq> Panic"
        if "(k, v) \<in> set rm" and "ValidateValueType t = Ok ()" for k v t
      proof -
        have "size v < size r" using that(1) Some by (rule size_map_entry(2) [rotated])
        moreover have "ValidateValueType v = Ok ()"
          using ValidateValueType_MapOf_values [of rm k v] less.prems(1) r that(1) by blast
        ultimately show ?thesis using less.hyps that(2) by blast
      qed
      show ?thesis
      proof (cases "genericMapOf sm")
        case (Some g)
        obtain kt vt where g: "g = (kt, vt)" by (cases g)
        then have sm: "sm = [(Str kt, vt)]" "isValidValueType kt"
          using Some genericMapOf_Some_iff by auto
        have vt: "ValidateValueType vt = Ok ()"
          using ValidateValueType_MapOf_values [of sm "Str kt" vt] less.prems(2) MapOf sm(1) by simp
        have "range_loop rm ()
                (\<lambda>(runtimeTypeKey, runtimeTypeValue) u.
                   case CheckValueRuntimeTypesMatch runtimeTypeKey (Str kt) of
                     Fail err \<Rightarrow> Fail err
                   | Panic \<Rightarrow> Panic
                   | Ok u' \<Rightarrow>
                       (case CheckValueRuntimeTypesMatch runtimeTypeValue vt of
                          Fail err \<Rightarrow> Fail (Wrap err [UserStrStripped runtimeTypeKey])
                        | Panic \<Rightarrow> Panic
                        | Ok u'' \<Rightarrow> Ok ())) \<noteq> Panic"
        proof (rule range_loop_no_Panic)
          fix x a
          assume x: "x \<in> set rm"
          obtain k v where kv: "x = (k, v)" by (cases x)
          have "CheckValueRuntimeTypesMatch k (Str kt) \<noteq> Panic"
            by (simp add: CheckValueRuntimeTypesMatch_Str split: option.splits)
          moreover have "CheckValueRuntimeTypesMatch v vt \<noteq> Panic"
            using sub [OF _ vt] x kv by blast
          ultimately show "(case x of (runtimeTypeKey, runtimeTypeValue) \<Rightarrow> \<lambda>u.
                   case CheckValueRuntimeTypesMatch runtimeTypeKey (Str kt) of
                     Fail err \<Rightarrow> Fail err
                   | Panic \<Rightarrow> Panic
                   | Ok u' \<Rightarrow>
                       (case CheckValueRuntimeTypesMatch runtimeTypeValue vt of
                          Fail err \<Rightarrow> Fail (Wrap err [UserStrStripped runtimeTypeKey])
                        | Panic \<Rightarrow> Panic
                        | Ok u'' \<Rightarrow> Ok ())) a \<noteq> Panic"
            by (simp add: kv split: outcome.splits)
        qed
        then show ?thesis
          using MapOf \<open>InterfaceToInterfaceInterfaceMap r = Some rm\<close> Some g
          by (simp add: CheckValueRuntimeTypesMatch_MapOf)
      next
        case None
        have fields: "range_loop sm ()
                (\<lambda>(schemaTypeKey, schemaTypeValue) u.
                   case map_of rm schemaTypeKey of
                     None \<Rightarrow> Fail (Wrap (Error ErrorMustBeDefined []) [UserStrStripped schemaTypeKey])
                   | Some runtimeTypeValue \<Rightarrow>
                       (case CheckValueRuntimeTypesMatch runtimeTypeValue schemaTypeValue of
                          Fail err \<Rightarrow> Fail (Wrap err [UserStrStripped schemaTypeKey])
                        | Panic \<Rightarrow> Panic
                        | Ok u' \<Rightarrow> Ok ())) \<noteq> Panic"
        proof (rule range_loop_no_Panic)
          fix x a
          assume x: "x \<in> set sm"
          obtain k t where kt: "x = (k, t)" by (cases x)
          have t: "ValidateValueType t = Ok ()"
            using ValidateValueType_MapOf_values [of sm k t] less.prems(2) MapOf x kt by blast
          show "(case x of (schemaTypeKey, schemaTypeValue) \<Rightarrow> \<lambda>u.
                   case map_of rm schemaTypeKey of
                     None \<Rightarrow> Fail (Wrap (Error ErrorMustBeDefined []) [UserStrStripped schemaTypeKey])
                   | Some runtimeTypeValue \<Rightarrow>
                       (case CheckValueRuntimeTypesMatch runtimeTypeValue schemaTypeValue of
                          Fail err \<Rightarrow> Fail (Wrap err [UserStrStripped schemaTypeKey])
                        | Panic \<Rightarrow> Panic
                        | Ok u' \<Rightarrow> Ok ())) a \<noteq> Panic"
            using sub [OF map_of_in_set t]
            by (auto simp: kt split: option.splits outcome.splits)
        qed
        have keys: "range_loop rm ()
                (\<lambda>(runtimeTypeKey, runtimeTypeValue) u'.
                   case map_of sm runtimeTypeKey of
                     None \<Rightarrow> Fail (Error (ErrorUnsupportedKey runtimeTypeKey) [])
                   | Some schemaTypeValue \<Rightarrow> Ok ()) \<noteq> (Panic :: ('f Error, unit) outcome)"
          by (rule range_loop_no_Panic) (auto split: option.splits)
        show ?thesis
          using MapOf \<open>InterfaceToInterfaceInterfaceMap r = Some rm\<close> None fields keys
          by (simp add: CheckValueRuntimeTypesMatch_MapOf split: outcome.splits)
      qed
    qed
  next
    case Null
    then show ?thesis using less.prems(2) by simp
  next
    case (Int64 i)
    then show ?thesis by (simp add: CheckValueRuntimeTypesMatch_other)
  next
    case (Float64 f)
    then show ?thesis by (simp add: CheckValueRuntimeTypesMatch_other)
  next
    case (Boolean b)
    then show ?thesis by (simp add: CheckValueRuntimeTypesMatch_other)
  qed
qed

lemma CheckArgRuntimeTypesMatch_no_Panic:
  "CheckArgRuntimeTypesMatch argRuntimeTypes (argSchemaTypes :: (string \<times> 'f Value) list) \<noteq> Panic"
proof (cases "ValidateArgTypes argSchemaTypes = Ok () \<and> ValidateArgTypes argRuntimeTypes = Ok ()")
  case False
  then show ?thesis
    using ValidateArgTypes_no_Panic [of argSchemaTypes] ValidateArgTypes_no_Panic [of argRuntimeTypes]
    by (auto simp: CheckArgRuntimeTypesMatch_def split: outcome.splits)
next
  case True
  have rt: "ValidateValueType t = Ok ()" if "(n, t) \<in> set argRuntimeTypes" for n t
    using True that by (auto simp: ValidateArgTypes_Ok_iff)
  have st: "ValidateValueType t = Ok ()" if "(n, t) \<in> set argSchemaTypes" for n t
    using True that by (auto simp: ValidateArgTypes_Ok_iff)
  have first: "range_loop argSchemaTypes ()
            (\<lambda>(argName, argSchemaType) u.
               if length argRuntimeTypes = 0
               then Fail (Error (ErrorMapMustBeDefined (map fst argSchemaTypes)) [])
               else (case map_of argRuntimeTypes argName of
                       None \<Rightarrow> Fail (Wrap (Error ErrorMustBeDefined []) [Field argName])
                     | Some argRuntimeType \<Rightarrow>
                         (case CheckValueRuntimeTypesMatch argRuntimeType argSchemaType of
                            Fail err \<Rightarrow> Fail (Wrap err [Field argName])
                          | Panic \<Rightarrow> Panic
                          | Ok u'' \<Rightarrow> Ok ()))) \<noteq> Panic"
    by (rule range_loop_no_Panic)
       (auto split: option.splits outcome.splits if_splits
             dest!: map_of_in_set dest: validated_match_no_Panic [OF rt st])
  have second: "range_loop argRuntimeTypes ()
            (\<lambda>(argName, argRuntimeType) u.
               case map_of argSchemaTypes argName of
                 None \<Rightarrow> Fail (Error (ErrorUnsupportedKey (Str argName)) [])
               | Some argSchemaType \<Rightarrow> Ok ()) \<noteq> (Panic :: ('f Error, unit) outcome)"
    by (rule range_loop_no_Panic) (auto split: option.splits)
  show ?thesis
    using True first second
    by (simp add: CheckArgRuntimeTypesMatch_def split: outcome.splits)
qed

text \<open>
  Claim C10. \<^verbatim>\<open>CheckValueRuntimeTypesMatch\<close> does not validate its arguments (it accepts
  the unknown kind \<^verbatim>\<open>BOGUS\<close> against itself) and indexes element 0 of the schema's
  and of the runtime type's slice without a length check. When both arguments have
  passed \<^verbatim>\<open>ValidateValueType\<close> the call does not panic, and
  \<^verbatim>\<open>CheckArgRuntimeTypesMatch\<close>, which validates both sides first, never panics. A
  direct call with an empty sequence as the schema, or with an empty sequence as the
  runtime type of a list schema, panics at the index.
\<close>

theorem match_index_needs_validation:
  "(ValidateValueType r = Ok () \<and> ValidateValueType s = Ok () \<longrightarrow>
       CheckValueRuntimeTypesMatch (r :: 'f Value) s \<noteq> Panic)
   \<and> CheckArgRuntimeTypesMatch argRuntimeTypes (argSchemaTypes :: (string \<times> 'f Value) list) \<noteq> Panic
   \<and> CheckValueRuntimeTypesMatch (r :: 'f Value) (Slice []) = Panic
   \<and> CheckValueRuntimeTypesMatch (Slice [] :: 'f Value) (Slice (Str s0 # map Str srest)) = Panic
   \<and> CheckValueRuntimeTypesMatch (Str ''BOGUS'' :: 'f Value) (Str ''BOGUS'') = Ok ()"
  using validated_match_no_Panic [of r s]
    CheckArgRuntimeTypesMatch_no_Panic [of argRuntimeTypes argSchemaTypes]
  by (simp add: CheckValueRuntimeTypesMatch_Slice CheckValueRuntimeTypesMatch_Str)

theorem match_index_needs_validation_witness:
  "ValidateValueType (Slice [Str ''INT''] :: unit Value) = Ok ()
   \<and> ValidateValueType (Slice [Str ''INT|FLOAT''] :: unit Value) = Ok ()
   \<and> CheckValueRuntimeTypesMatch (Slice [Str ''INT''] :: unit Value) (Slice [Str ''INT|FLOAT'']) \<noteq> Panic
   \<and> CheckArgRuntimeTypesMatch [(''x'', Slice [] :: unit Value)] [(''x'', Slice [Str ''INT''])] \<noteq> Panic
   \<and> CheckValueRuntimeTypesMatch (Slice [] :: unit Value) (Slice [Str ''INT'']) = Panic"
  using match_index_needs_validation [of "Slice [Str ''INT''] :: unit Value" "Slice [Str ''INT|FLOAT'']"
      "[(''x'', Slice [])]" "[(''x'', Slice [Str ''INT''])]" "''INT''" "[]"]
  by (simp add: isValidValueType_def ValueTypeStrings_def)

subsection \<open>The loops of the caster\<close>

lemma range_loop_results:
  "range_loop xs acc (\<lambda>x a. case g x of Ok c \<Rightarrow> Ok (upd x c a) | Fail e \<Rightarrow> Fail e | Panic \<Rightarrow> Panic) =
     (case results g xs of
        Ok cs \<Rightarrow> Ok (fold (\<lambda>(x, c). upd x c) (zip xs cs) acc)
      | Fail e \<Rightarrow> Fail e
      | Panic \<Rightarrow> Panic)"
  by (induction xs arbitrary: acc) (auto split: outcome.splits)

lemma results_Ok_iff: "results g xs = Ok cs \<longleftrightarrow> list_all2 (\<lambda>x c. g x = Ok c) xs cs"
proof (induction xs arbitrary: cs)
  case Nil
  show ?case by auto
next
  case (Cons x xs)
  show ?case by (cases cs) (auto simp: Cons [symmetric] split: outcome.splits)
qed

lemma results_succeeds_iff: "(\<exists>cs. results g xs = Ok cs) \<longleftrightarrow> (\<forall>x \<in> set xs. \<exists>c. g x = Ok c)"
  by (induction xs) (auto split: outcome.splits)

lemma results_append:
  "results g (xs @ ys) =
     (case results g xs of
        Ok cs \<Rightarrow> (case results g ys of Ok ds \<Rightarrow> Ok (cs @ ds) | Fail e \<Rightarrow> Fail e | Panic \<Rightarrow> Panic)
      | Fail e \<Rightarrow> Fail e
      | Panic \<Rightarrow> Panic)"
  by (induction xs) (auto split: outcome.splits)

lemma results_first_Fail:
  assumes "\<forall>y \<in> set pre. \<exists>c. g y = Ok c" and "g x = Fail e"
  shows "results g (pre @ x # post) = Fail e"
proof -
  obtain cs where "results g pre = Ok cs" using assms(1) results_succeeds_iff by blast
  then show ?thesis using assms(2) by (simp add: results_append)
qed

lemma results_first_Panic:
  assumes "\<forall>y \<in> set pre. \<exists>c. g y = Ok c" and "g x = Panic"
  shows "results g (pre @ x # post) = Panic"
proof -
  obtain cs where "results g pre = Ok cs" using assms(1) results_succeeds_iff by blast
  then show ?thesis using assms(2) by (simp add: results_append)
qed

lemma results_cong:
  "(\<And>x. x \<in> set xs \<Longrightarrow> g x = h x) \<Longrightarrow> results g xs = results h xs"
  by (induction xs) (auto split: outcome.splits)

lemma results_no_Panic:
  "(\<And>x. x \<in> set xs \<Longrightarrow> g x \<noteq> Panic) \<Longrightarrow> results g xs \<noteq> Panic"
  by (induction xs) (auto split: outcome.splits)

lemma range_loop_unit_results:
  "range_loop xs () (\<lambda>x u. g x) = (case results g xs of Ok cs \<Rightarrow> Ok () | Fail e \<Rightarrow> Fail e | Panic \<Rightarrow> Panic)"
  by (induction xs) (auto split: outcome.splits)

lemma fold_zip_update:
  "length xs = length cs \<Longrightarrow>
     fold (\<lambda>(x, c). case c of (k, v) \<Rightarrow> AList.update k v) (zip xs cs) acc =
     fold (\<lambda>(k, v). AList.update k v) cs acc"
  by (induction xs cs arbitrary: acc rule: list_induct2) auto

lemma CastValue_MapOf_empty:
  "CastValue lib (MapOf valueMap) (MapOf []) =
     (if valueMap = [] then Ok (MapOf [])
      else Fail (Error ErrorMustBeEmpty [UserStr (MapOf valueMap)]))"
  by (subst CastValue.simps) (simp add: ValidateValue_def Wrap_def)

lemma CastValue_not_map:
  assumes "ValidateValueType (MapOf valueTypeMap) = Ok ()"
    and "value \<noteq> Null" and "InterfaceToInterfaceInterfaceMap value = None"
  shows "CastValue lib value (MapOf valueTypeMap) =
     Fail (Error (ErrorInvalidPrimitiveType value [PrimTypeMap]) [])"
  using assms by (subst CastValue.simps) (simp add: ValidateValue_def InvalidPrimitive_def)

lemma CastValue_generic:
  assumes "isValidValueType kt" and "ValidateValueType vt = Ok ()"
  shows "CastValue lib (MapOf valueMap) (MapOf [(Str kt, vt)]) =
     (case results (cast_entry lib kt vt) valueMap of
        Ok cs \<Rightarrow> Ok (MapOf (collect cs))
      | Fail e \<Rightarrow> Fail e
      | Panic \<Rightarrow> Panic)"
proof -
  have valid: "ValidateValueType (MapOf [(Str kt, vt)]) = Ok ()"
    using assms ValidateValueType_generic_iff by blast
  have gen: "genericMapOf [(Str kt, vt)] = Some (kt, vt)"
    using assms(1) genericMapOf_Some_iff by blast
  have body: "(\<lambda>(valueKey, valueVal) valueMapCasted.
                 case CastValue lib valueKey (Str kt) of
                   Fail err \<Rightarrow> Fail err
                 | Panic \<Rightarrow> Panic
                 | Ok valueKeyCasted \<Rightarrow>
                     (case CastValue lib valueVal vt of
                        Fail err \<Rightarrow> Fail (Wrap err [UserStrStripped valueKey])
                      | Panic \<Rightarrow> Panic
                      | Ok valueValCasted \<Rightarrow>
                          Ok (AList.update valueKeyCasted valueValCasted valueMapCasted)))
     = (\<lambda>x a. case cast_entry lib kt vt x of
                 Ok c \<Rightarrow> Ok ((\<lambda>x (k, v). AList.update k v) x c a)
               | Fail e \<Rightarrow> Fail e
               | Panic \<Rightarrow> Panic)"
    by (intro ext) (simp add: cast_entry_def split: prod.splits outcome.splits)
  have fold: "fold (\<lambda>(x, c). (\<lambda>x (k, v). AList.update k v) x c) (zip valueMap cs) [] = collect cs"
    if "length cs = length valueMap" for cs :: "('f Value \<times> 'f Value) list"
    using that by (simp add: collect_def fold_zip_update)
  have "CastValue lib (MapOf valueMap) (MapOf [(Str kt, vt)]) =
     (case range_loop valueMap []
             (\<lambda>x a. case cast_entry lib kt vt x of
                 Ok c \<Rightarrow> Ok ((\<lambda>x (k, v). AList.update k v) x c a)
               | Fail e \<Rightarrow> Fail e
               | Panic \<Rightarrow> Panic)
      of Fail err \<Rightarrow> Fail err
       | Panic \<Rightarrow> Panic
       | Ok valueMapCasted \<Rightarrow> Ok (MapOf valueMapCasted))"
    by (subst CastValue.simps)
       (simp add: valid gen body ValidateValue_def del: ValidateValueType.simps)
  also have "\<dots> = (case results (cast_entry lib kt vt) valueMap of
        Ok cs \<Rightarrow> Ok (MapOf (collect cs))
      | Fail e \<Rightarrow> Fail e
      | Panic \<Rightarrow> Panic)"
  proof (cases "results (cast_entry lib kt vt) valueMap")
    case (Ok cs)
    then have "length cs = length valueMap"
      by (auto simp: results_Ok_iff dest: list_all2_lengthD)
    then show ?thesis using Ok fold by (simp add: range_loop_results)
  qed (simp_all add: range_loop_results)
  finally show ?thesis .
qed


lemma CastValue_fixed:
  assumes "ValidateValueType (MapOf fieldTypes) = Ok ()" and "fieldTypes \<noteq> []"
    and "genericMapOf fieldTypes = None"
  shows "CastValue lib (MapOf valueMap) (MapOf fieldTypes) =
     (case results (cast_field lib valueMap) fieldTypes of
        Fail e \<Rightarrow> Fail e
      | Panic \<Rightarrow> Panic
      | Ok cs \<Rightarrow>
          (case results (declared_key fieldTypes) valueMap of
             Fail e \<Rightarrow> Fail e
           | Panic \<Rightarrow> Panic
           | Ok us \<Rightarrow> Ok (MapOf (assign fieldTypes cs))))"
proof -
  have body: "(\<lambda>(valueKey, fieldType) valueMapCasted.
                 case map_of valueMap valueKey of
                   None \<Rightarrow> Fail (Wrap (Error ErrorMustBeDefined []) [UserStrStripped valueKey])
                 | Some valueVal \<Rightarrow>
                     (case CastValue lib valueVal fieldType of
                        Fail err \<Rightarrow> Fail (Wrap err [UserStrStripped valueKey])
                      | Panic \<Rightarrow> Panic
                      | Ok valueValCasted \<Rightarrow>
                          Ok (AList.update valueKey valueValCasted valueMapCasted)))
     = (\<lambda>x a. case cast_field lib valueMap x of
                 Ok c \<Rightarrow> Ok ((\<lambda>x c. AList.update (fst x) c) x c a)
               | Fail e \<Rightarrow> Fail e
               | Panic \<Rightarrow> Panic)"
    by (intro ext) (simp add: cast_field_def split: prod.splits outcome.splits option.splits)
  have keys: "(\<lambda>(valueKey, valueVal) u''.
                 case map_of fieldTypes valueKey of
                   None \<Rightarrow> Fail (Error (ErrorUnsupportedKey valueKey) [])
                 | Some fieldType \<Rightarrow> Ok ())
     = (\<lambda>x u. declared_key fieldTypes x)"
    by (intro ext) (simp add: declared_key_def split: prod.splits)
  have fold: "fold (\<lambda>(x, c). (\<lambda>x c. AList.update (fst x) c) x c) (zip fieldTypes cs) [] = assign fieldTypes cs"
    for cs :: "'f Value list"
    by (simp add: assign_def)
  have "CastValue lib (MapOf valueMap) (MapOf fieldTypes) =
     (case range_loop fieldTypes []
             (\<lambda>x a. case cast_field lib valueMap x of
                 Ok c \<Rightarrow> Ok ((\<lambda>x c. AList.update (fst x) c) x c a)
               | Fail e \<Rightarrow> Fail e
               | Panic \<Rightarrow> Panic)
      of Fail err \<Rightarrow> Fail err
       | Panic \<Rightarrow> Panic
       | Ok valueMapCasted \<Rightarrow>
           (case range_loop valueMap () (\<lambda>x u. declared_key fieldTypes x)
            of Fail err \<Rightarrow> Fail err
             | Panic \<Rightarrow> Panic
             | Ok u'' \<Rightarrow> Ok (MapOf valueMapCasted)))"
    by (subst CastValue.simps)
       (simp add: assms body ValidateValue_def del: ValidateValueType.simps,
        unfold keys, rule refl)
  also have "\<dots> = (case results (cast_field lib valueMap) fieldTypes of
        Fail e \<Rightarrow> Fail e
      | Panic \<Rightarrow> Panic
      | Ok cs \<Rightarrow>
          (case results (declared_key fieldTypes) valueMap of
             Fail e \<Rightarrow> Fail e
           | Panic \<Rightarrow> Panic
           | Ok us \<Rightarrow> Ok (MapOf (assign fieldTypes cs))))"
    unfolding range_loop_results range_loop_unit_results fold
    by (simp split: outcome.splits)
  finally show ?thesis .
qed

lemma fold_list_update_enumerate:
  "length xs = length cs \<Longrightarrow> n + length xs \<le> length acc \<Longrightarrow>
     fold (\<lambda>(x, c) a. a[fst x := c]) (zip (enumerate n xs) cs) acc =
       take n acc @ cs @ drop (n + length xs) acc"
proof (induction xs cs arbitrary: n acc rule: list_induct2)
  case Nil
  show ?case by simp
next
  case (Cons x xs c cs)
  have n: "n < length acc" using Cons.prems by simp
  have "fold (\<lambda>(x, c) a. a[fst x := c]) (zip (enumerate (Suc n) xs) cs) (acc[n := c]) =
          take (Suc n) (acc[n := c]) @ cs @ drop (Suc n + length xs) (acc[n := c])"
    using Cons.prems by (intro Cons.IH) simp
  moreover have "take (Suc n) (acc[n := c]) = take n acc @ [c]"
    using n by (simp add: take_Suc_conv_app_nth)
  moreover have "drop (Suc n + length xs) (acc[n := c]) = drop (Suc n + length xs) acc"
    by simp
  ultimately show ?case by simp
qed

lemma CastValue_Slice:
  assumes "isValidValueType s"
  shows "CastValue lib (Slice xs) (Slice [Str s]) =
     (case results (cast_item lib s) (enumerate 0 xs) of
        Ok cs \<Rightarrow> Ok (Slice cs)
      | Fail e \<Rightarrow> Fail e
      | Panic \<Rightarrow> Panic)"
proof -
  have valid: "ValidateValueType (Slice [Str s]) = Ok ()"
    using assms ValidateValueType_Slice_iff by blast
  have body: "(\<lambda>(i, valueItem) valueSliceCasted.
                 case CastValue lib valueItem (Str s) of
                   Fail err \<Rightarrow> Fail (Wrap err [Index i])
                 | Panic \<Rightarrow> Panic
                 | Ok valueItemCasted \<Rightarrow> Ok (valueSliceCasted[i := valueItemCasted]))
     = (\<lambda>x a. case cast_item lib s x of
                 Ok c \<Rightarrow> Ok ((\<lambda>x c a. a[fst x := c]) x c a)
               | Fail e \<Rightarrow> Fail e
               | Panic \<Rightarrow> Panic)"
    by (intro ext) (simp add: cast_item_def split: prod.splits outcome.splits)
  have "CastValue lib (Slice xs) (Slice [Str s]) =
     (case range_loop (enumerate 0 xs) (replicate (length xs) Null)
             (\<lambda>x a. case cast_item lib s x of
                 Ok c \<Rightarrow> Ok ((\<lambda>x c a. a[fst x := c]) x c a)
               | Fail e \<Rightarrow> Fail e
               | Panic \<Rightarrow> Panic)
      of Fail err \<Rightarrow> Fail err
       | Panic \<Rightarrow> Panic
       | Ok valueSliceCasted \<Rightarrow> Ok (Slice valueSliceCasted))"
    by (subst CastValue.simps)
       (simp add: valid body ValidateValue_def del: ValidateValueType.simps)
  also have "\<dots> = (case results (cast_item lib s) (enumerate 0 xs) of
        Ok cs \<Rightarrow> Ok (Slice cs)
      | Fail e \<Rightarrow> Fail e
      | Panic \<Rightarrow> Panic)"
  proof (cases "results (cast_item lib s) (enumerate 0 xs)")
    case (Ok cs)
    then have len: "length xs = length cs"
      by (auto simp: results_Ok_iff dest: list_all2_lengthD)
    have "fold (\<lambda>(x, c). (\<lambda>x c a. a[fst x := c]) x c) (zip (enumerate 0 xs) cs)
            (replicate (length xs) Null) = cs"
      using fold_list_update_enumerate [OF len, of 0 "replicate (length xs) Null"] len
      by simp
    then show ?thesis using Ok by (simp add: range_loop_results)
  qed (simp_all add: range_loop_results)
  finally show ?thesis .
qed

lemma CastValue_not_slice:
  assumes "isValidValueType s" and "value \<noteq> Null" and "InterfaceToInterfaceSlice value = None"
  shows "CastValue lib value (Slice [Str s]) =
     Fail (Error (ErrorInvalidPrimitiveType value [PrimTypeList]) [])"
proof -
  have valid: "ValidateValueType (Slice [Str s]) = Ok ()"
    using assms ValidateValueType_Slice_iff by blast
  show ?thesis
    using assms
    by (subst CastValue.simps)
       (simp add: valid ValidateValue_def InvalidPrimitive_def del: ValidateValueType.simps)
qed

subsection \<open>Casting against a fixed map\<close>

lemma update_new_key: "k \<notin> fst ` set al \<Longrightarrow> AList.update k v al = al @ [(k, v)]"
  by (induction al) auto

lemma fold_update_distinct:
  "length fs = length cs \<Longrightarrow> distinct (map fst fs) \<Longrightarrow> fst ` set fs \<inter> fst ` set acc = {} \<Longrightarrow>
     fold (\<lambda>(x, c). AList.update (fst x) c) (zip fs cs) acc = acc @ zip (map fst fs) cs"
proof (induction fs cs arbitrary: acc rule: list_induct2)
  case Nil
  show ?case by simp
next
  case (Cons f fs c cs)
  have new: "fst f \<notin> fst ` set acc" using Cons.prems by auto
  have "fst ` set fs \<inter> fst ` set (acc @ [(fst f, c)]) = {}"
    using Cons.prems by auto
  then have "fold (\<lambda>(x, c). AList.update (fst x) c) (zip fs cs) (acc @ [(fst f, c)]) =
          (acc @ [(fst f, c)]) @ zip (map fst fs) cs"
    using Cons.prems by (intro Cons.IH) simp_all
  then show ?case using new by (simp add: update_new_key)
qed

lemma assign_distinct:
  "distinct (map fst fs) \<Longrightarrow> length fs = length cs \<Longrightarrow> assign fs cs = zip (map fst fs) cs"
  using fold_update_distinct [of fs cs "[]"] by (simp add: assign_def)

lemma cast_field_Ok_iff:
  "cast_field lib valueMap (k, t) = Ok c \<longleftrightarrow>
     (\<exists>v. map_of valueMap k = Some v \<and> CastValue lib v t = Ok c)"
  by (auto simp: cast_field_def split: option.splits outcome.splits)

lemma declared_key_Ok_iff:
  "declared_key fieldTypes (k, v) = Ok u \<longleftrightarrow> k \<in> fst ` set fieldTypes"
proof (cases "map_of fieldTypes k")
  case None
  then have "k \<notin> fst ` set fieldTypes" by (simp add: map_of_eq_None_iff)
  then show ?thesis using None by (simp add: declared_key_def)
next
  case (Some t)
  then have "(k, t) \<in> set fieldTypes" by (rule map_of_SomeD)
  then have "k \<in> fst ` set fieldTypes" by force
  then show ?thesis using Some by (simp add: declared_key_def)
qed

lemma cast_field_succeeds_iff:
  "(\<exists>c. cast_field lib valueMap x = Ok c) \<longleftrightarrow>
     (case x of (k, t) \<Rightarrow> \<exists>v c. map_of valueMap k = Some v \<and> CastValue lib v t = Ok c)"
  by (cases x) (auto simp: cast_field_Ok_iff)

lemma declared_key_succeeds_iff:
  "(\<exists>u. declared_key fieldTypes x = Ok u) \<longleftrightarrow> fst x \<in> fst ` set fieldTypes"
  by (cases x) (simp add: declared_key_Ok_iff)

lemma declared_key_absent:
  "k \<notin> fst ` set fieldTypes \<Longrightarrow>
     declared_key fieldTypes (k, v) = Fail (Error (ErrorUnsupportedKey k) [])"
  by (auto simp: declared_key_def map_of_eq_None_iff split: option.splits)

lemma cast_field_absent:
  "map_of valueMap k = None \<Longrightarrow>
     cast_field lib valueMap (k, t) = Fail (Error ErrorMustBeDefined [UserStrStripped k])"
  by (simp add: cast_field_def Wrap_def)

lemma cast_field_failed:
  "map_of valueMap k = Some v \<Longrightarrow> CastValue lib v t = Fail e \<Longrightarrow>
     cast_field lib valueMap (k, t) = Fail (Wrap e [UserStrStripped k])"
  by (simp add: cast_field_def)

lemma fixed_succeeds_iff:
  assumes "ValidateValueType (MapOf fieldTypes) = Ok ()" and "fieldTypes \<noteq> []"
    and "genericMapOf fieldTypes = None"
  shows "(\<exists>casted. CastValue lib (MapOf valueMap) (MapOf fieldTypes) = Ok casted) \<longleftrightarrow>
     set (map fst valueMap) = set (map fst fieldTypes) \<and>
     (\<forall>(k, t) \<in> set fieldTypes. \<exists>v c. map_of valueMap k = Some v \<and> CastValue lib v t = Ok c)"
proof -
  have "(\<exists>casted. CastValue lib (MapOf valueMap) (MapOf fieldTypes) = Ok casted) \<longleftrightarrow>
      (\<exists>cs. results (cast_field lib valueMap) fieldTypes = Ok cs) \<and>
      (\<exists>us. results (declared_key fieldTypes) valueMap = Ok us)"
    unfolding CastValue_fixed [OF assms] by (auto split: outcome.splits)
  also have "\<dots> \<longleftrightarrow>
      (\<forall>(k, t) \<in> set fieldTypes. \<exists>v c. map_of valueMap k = Some v \<and> CastValue lib v t = Ok c) \<and>
      fst ` set valueMap \<subseteq> fst ` set fieldTypes"
    unfolding results_succeeds_iff cast_field_succeeds_iff declared_key_succeeds_iff
    by auto
  also have "\<dots> \<longleftrightarrow>
      set (map fst valueMap) = set (map fst fieldTypes) \<and>
      (\<forall>(k, t) \<in> set fieldTypes. \<exists>v c. map_of valueMap k = Some v \<and> CastValue lib v t = Ok c)"
  proof -
    have "fst ` set fieldTypes \<subseteq> fst ` set valueMap"
      if all: "\<forall>(k, t) \<in> set fieldTypes. \<exists>v c. map_of valueMap k = Some v \<and> CastValue lib v t = Ok c"
    proof
      fix k assume "k \<in> fst ` set fieldTypes"
      then obtain t where "(k, t) \<in> set fieldTypes" by auto
      then obtain v where "map_of valueMap k = Some v" using all by blast
      then show "k \<in> fst ` set valueMap" by (force dest: map_of_SomeD)
    qed
    then show ?thesis by auto
  qed
  finally show ?thesis .
qed

lemma fixed_absent_field:
  assumes "ValidateValueType (MapOf fieldTypes) = Ok ()" and "fieldTypes \<noteq> []"
    and "genericMapOf fieldTypes = None"
    and "fieldTypes = fpre @ (k, t) # fpost"
    and "\<forall>(k', t') \<in> set fpre. \<exists>v c. map_of valueMap k' = Some v \<and> CastValue lib v t' = Ok c"
    and "map_of valueMap k = None"
  shows "CastValue lib (MapOf valueMap) (MapOf fieldTypes) =
           Fail (Error ErrorMustBeDefined [UserStrStripped k])"
proof -
  have "\<forall>y \<in> set fpre. \<exists>c. cast_field lib valueMap y = Ok c"
    using assms(5) unfolding cast_field_succeeds_iff .
  then have "results (cast_field lib valueMap) (fpre @ (k, t) # fpost) =
               Fail (Error ErrorMustBeDefined [UserStrStripped k])"
    using cast_field_absent [OF assms(6)] by (rule results_first_Fail)
  then show ?thesis
    unfolding CastValue_fixed [OF assms(1-3)] using assms(4) by simp
qed

lemma fixed_failed_field:
  assumes "ValidateValueType (MapOf fieldTypes) = Ok ()" and "fieldTypes \<noteq> []"
    and "genericMapOf fieldTypes = None"
    and "fieldTypes = fpre @ (k, t) # fpost"
    and "\<forall>(k', t') \<in> set fpre. \<exists>v c. map_of valueMap k' = Some v \<and> CastValue lib v t' = Ok c"
    and "map_of valueMap k = Some v" and "CastValue lib v t = Fail e"
  shows "CastValue lib (MapOf valueMap) (MapOf fieldTypes) = Fail (Wrap e [UserStrStripped k])"
proof -
  have "\<forall>y \<in> set fpre. \<exists>c. cast_field lib valueMap y = Ok c"
    using assms(5) unfolding cast_field_succeeds_iff .
  then have "results (cast_field lib valueMap) (fpre @ (k, t) # fpost) =
               Fail (Wrap e [UserStrStripped k])"
    using cast_field_failed [OF assms(6,7)] by (rule results_first_Fail)
  then show ?thesis
    unfolding CastValue_fixed [OF assms(1-3)] using assms(4) by simp
qed

lemma fixed_undeclared_key:
  assumes "ValidateValueType (MapOf fieldTypes) = Ok ()" and "fieldTypes \<noteq> []"
    and "genericMapOf fieldTypes = None"
    and "\<forall>(k', t') \<in> set fieldTypes. \<exists>v c. map_of valueMap k' = Some v \<and> CastValue lib v t' = Ok c"
    and "valueMap = vpre @ (k, v) # vpost"
    and "set (map fst vpre) \<subseteq> set (map fst fieldTypes)"
    and "k \<notin> set (map fst fieldTypes)"
  shows "CastValue lib (MapOf valueMap) (MapOf fieldTypes) =
           Fail (Error (ErrorUnsupportedKey k) [])"
proof -
  have "\<forall>y \<in> set fieldTypes. \<exists>c. cast_field lib valueMap y = Ok c"
    using assms(4) unfolding cast_field_succeeds_iff .
  then obtain cs where cs: "results (cast_field lib valueMap) fieldTypes = Ok cs"
    using results_succeeds_iff by blast
  have "\<forall>y \<in> set vpre. \<exists>c. declared_key fieldTypes y = Ok c"
    using assms(6) unfolding declared_key_succeeds_iff by auto
  moreover have "declared_key fieldTypes (k, v) = Fail (Error (ErrorUnsupportedKey k) [])"
    using assms(7) by (simp add: declared_key_absent)
  ultimately have "results (declared_key fieldTypes) (vpre @ (k, v) # vpost) =
               Fail (Error (ErrorUnsupportedKey k) [])"
    by (rule results_first_Fail)
  then show ?thesis
    unfolding CastValue_fixed [OF assms(1-3)] using assms(5) cs by simp
qed

lemma fixed_result:
  assumes "ValidateValueType (MapOf fieldTypes) = Ok ()" and "fieldTypes \<noteq> []"
    and "genericMapOf fieldTypes = None"
    and "distinct (map fst fieldTypes)"
    and "CastValue lib (MapOf valueMap) (MapOf fieldTypes) = Ok casted"
  shows "\<exists>cs. casted = MapOf (zip (map fst fieldTypes) cs) \<and>
           list_all2 (\<lambda>(k, t) c. \<exists>v. map_of valueMap k = Some v \<and> CastValue lib v t = Ok c)
             fieldTypes cs"
proof -
  obtain cs where cs: "results (cast_field lib valueMap) fieldTypes = Ok cs"
      and casted: "casted = MapOf (assign fieldTypes cs)"
    using assms(5) unfolding CastValue_fixed [OF assms(1-3)]
    by (auto split: outcome.splits)
  have all2: "list_all2 (\<lambda>x c. cast_field lib valueMap x = Ok c) fieldTypes cs"
    using cs by (simp add: results_Ok_iff)
  then have "length fieldTypes = length cs" by (rule list_all2_lengthD)
  then have "assign fieldTypes cs = zip (map fst fieldTypes) cs"
    using assms(4) by (simp add: assign_distinct)
  moreover have "list_all2 (\<lambda>(k, t) c. \<exists>v. map_of valueMap k = Some v \<and> CastValue lib v t = Ok c)
             fieldTypes cs"
    using all2 by (rule list_all2_mono) (auto simp: cast_field_Ok_iff)
  ultimately show ?thesis using casted by auto
qed

lemma isValidValueType_simps [simp]:
  "isValidValueType ''INT''" "isValidValueType ''FLOAT''"
  "isValidValueType ''STRING''" "isValidValueType ''BOOL''"
  "isValidValueType ''INT|STRING''" "isValidValueType ''INT|FLOAT''"
  by (simp_all add: isValidValueType_def ValueTypeStrings_def)

text \<open>
  Claim C3, as amended. The schema is a fixed map: a valid map type expression that is
  not empty and is not a generic map (the empty map schema is what the specification
  calls the empty generic-map schema: a non-empty value fails against it with
  \<^verbatim>\<open>MustBeEmpty\<close>). For every map value:
  \<^item> the cast succeeds exactly when the key set of the value equals the declared field
    set and every declared field is present and casts against its type;
  \<^item> a failing cast returns the error of the first check that fails, and the declared
    fields are checked first, one by one in the order the schema is enumerated (lines
    341-351), the keys of the value after them (lines 352-356);
  \<^item> so when the first declared field that is absent or does not cast is an absent one,
    the cast fails with \<^verbatim>\<open>MustBeDefined\<close> at the path of that field;
  \<^item> when it is a field that does not cast, the cast fails with the error of that
    field's cast, at the path of that field;
  \<^item> when every declared field is present and casts, the first key of the value, in the
    order the value is enumerated, that the schema does not declare fails the cast with
    \<^verbatim>\<open>UnsupportedKey\<close> of that key;
  \<^item> on success the result is the map of the schema's keys, as they are written in the
    schema, to the cast of the value's entry for that key.
\<close>

theorem fixed_map_cast:
  assumes "ValidateValueType (MapOf fieldTypes) = Ok ()" and "fieldTypes \<noteq> []"
    and "genericMapOf fieldTypes = None"
  shows
   "((\<exists>casted. CastValue lib (MapOf valueMap) (MapOf fieldTypes) = Ok casted) \<longleftrightarrow>
       set (map fst valueMap) = set (map fst fieldTypes) \<and>
       (\<forall>(k, t) \<in> set fieldTypes. \<exists>v c. map_of valueMap k = Some v \<and> CastValue lib v t = Ok c))
    \<and> (fieldTypes = fpre @ (fk, ft) # fpost \<and>
        (\<forall>(k, t) \<in> set fpre. \<exists>v c. map_of valueMap k = Some v \<and> CastValue lib v t = Ok c) \<and>
        map_of valueMap fk = None \<longrightarrow>
          CastValue lib (MapOf valueMap) (MapOf fieldTypes) =
            Fail (Error ErrorMustBeDefined [UserStrStripped fk]))
    \<and> ((\<forall>(k, t) \<in> set fieldTypes. \<exists>v c. map_of valueMap k = Some v \<and> CastValue lib v t = Ok c) \<and>
        valueMap = vpre @ (vk, vv) # vpost \<and>
        set (map fst vpre) \<subseteq> set (map fst fieldTypes) \<and> vk \<notin> set (map fst fieldTypes) \<longrightarrow>
          CastValue lib (MapOf valueMap) (MapOf fieldTypes) =
            Fail (Error (ErrorUnsupportedKey vk) []))
    \<and> (distinct (map fst fieldTypes) \<and>
        CastValue lib (MapOf valueMap) (MapOf fieldTypes) = Ok casted \<longrightarrow>
          (\<exists>cs. casted = MapOf (zip (map fst fieldTypes) cs) \<and>
             list_all2 (\<lambda>(k, t) c. \<exists>v. map_of valueMap k = Some v \<and> CastValue lib v t = Ok c)
               fieldTypes cs))
    \<and> (fieldTypes = fpre @ (fk, ft) # fpost \<and>
        (\<forall>(k, t) \<in> set fpre. \<exists>v c. map_of valueMap k = Some v \<and> CastValue lib v t = Ok c) \<and>
        map_of valueMap fk = Some fv \<and> CastValue lib fv ft = Fail e \<longrightarrow>
          CastValue lib (MapOf valueMap) (MapOf fieldTypes) =
            Fail (Wrap e [UserStrStripped fk]))"
proof (intro conjI impI)
  show "(\<exists>casted. CastValue lib (MapOf valueMap) (MapOf fieldTypes) = Ok casted) \<longleftrightarrow>
       set (map fst valueMap) = set (map fst fieldTypes) \<and>
       (\<forall>(k, t) \<in> set fieldTypes. \<exists>v c. map_of valueMap k = Some v \<and> CastValue lib v t = Ok c)"
    by (rule fixed_succeeds_iff [OF assms])
next
  assume "fieldTypes = fpre @ (fk, ft) # fpost \<and>
        (\<forall>(k, t) \<in> set fpre. \<exists>v c. map_of valueMap k = Some v \<and> CastValue lib v t = Ok c) \<and>
        map_of valueMap fk = None"
  then show "CastValue lib (MapOf valueMap) (MapOf fieldTypes) =
            Fail (Error ErrorMustBeDefined [UserStrStripped fk])"
    by (elim conjE) (rule fixed_absent_field [OF assms], assumption+)
next
  assume "(\<forall>(k, t) \<in> set fieldTypes. \<exists>v c. map_of valueMap k = Some v \<and> CastValue lib v t = Ok c) \<and>
        valueMap = vpre @ (vk, vv) # vpost \<and>
        set (map fst vpre) \<subseteq> set (map fst fieldTypes) \<and> vk \<notin> set (map fst fieldTypes)"
  then show "CastValue lib (MapOf valueMap) (MapOf fieldTypes) =
            Fail (Error (ErrorUnsupportedKey vk) [])"
    by (elim conjE) (rule fixed_undeclared_key [OF assms], assumption+)
next
  assume "distinct (map fst fieldTypes) \<and>
        CastValue lib (MapOf valueMap) (MapOf fieldTypes) = Ok casted"
  then show "\<exists>cs. casted = MapOf (zip (map fst fieldTypes) cs) \<and>
             list_all2 (\<lambda>(k, t) c. \<exists>v. map_of valueMap k = Some v \<and> CastValue lib v t = Ok c)
               fieldTypes cs"
    by (elim conjE) (rule fixed_result [OF assms], assumption+)
next
  assume "fieldTypes = fpre @ (fk, ft) # fpost \<and>
        (\<forall>(k, t) \<in> set fpre. \<exists>v c. map_of valueMap k = Some v \<and> CastValue lib v t = Ok c) \<and>
        map_of valueMap fk = Some fv \<and> CastValue lib fv ft = Fail e"
  then show "CastValue lib (MapOf valueMap) (MapOf fieldTypes) = Fail (Wrap e [UserStrStripped fk])"
    by (elim conjE) (rule fixed_failed_field [OF assms], assumption+)
qed

theorem fixed_map_cast_witness:
  "CastValue spec_cast (MapOf [(Str ''x'', Str ''5'')] :: unit Value)
       (MapOf [(Str ''x'', Str ''INT''), (Str ''y'', Str ''STRING'')]) =
     Fail (Error ErrorMustBeDefined [UserStrStripped (Str ''y'')])
   \<and> (\<exists>casted. CastValue spec_cast (MapOf [(Str ''y'', Str ''a''), (Str ''x'', Str ''5'')] :: unit Value)
       (MapOf [(Str ''x'', Str ''INT''), (Str ''y'', Str ''STRING'')]) = Ok casted)
   \<and> CastValue spec_cast (MapOf [(Str ''x'', Str ''5''), (Str ''z'', Str ''1''), (Str ''y'', Str ''a'')] :: unit Value)
       (MapOf [(Str ''x'', Str ''INT''), (Str ''y'', Str ''STRING'')]) =
     Fail (Error (ErrorUnsupportedKey (Str ''z'')) [])
   \<and> CastValue spec_cast (MapOf [(Str ''x'', Str ''5''), (Str ''y'', Boolean True)] :: unit Value)
       (MapOf [(Str ''x'', Str ''INT''), (Str ''y'', Str ''STRING'')]) =
     Fail (Error (ErrorInvalidPrimitiveType (Boolean True) [PrimTypeString])
             [UserStrStripped (Str ''y'')])"
proof -
  let ?schema = "[(Str ''x'', Str ''INT''), (Str ''y'', Str ''STRING'')] :: (unit Value \<times> unit Value) list"
  have valid: "ValidateValueType (MapOf ?schema) = Ok ()"
    by (simp add: isValidValueType_def ValueTypeStrings_def)
  have ne: "?schema \<noteq> []" by simp
  have gen: "genericMapOf ?schema = None" by (simp add: genericMapOf_def)
  have five: "CastValue spec_cast (Str ''5'' :: unit Value) (Str ''INT'') = Ok (Int64 5)"
    by (simp add: CastValue_union castUnion_def parse_int64_def digit_of_def)
  have a: "CastValue spec_cast (Str ''a'' :: unit Value) (Str ''STRING'') = Ok (Str ''a'')"
    by (simp add: CastValue_union castUnion_def castFloat_def castString_def)
  note T = fixed_map_cast [OF valid ne gen]
  have absent: "CastValue spec_cast (MapOf [(Str ''x'', Str ''5'')] :: unit Value) (MapOf ?schema) =
     Fail (Error ErrorMustBeDefined [UserStrStripped (Str ''y'')])"
    using T [where lib = spec_cast and valueMap = "[(Str ''x'', Str ''5'')]"
        and fpre = "[(Str ''x'', Str ''INT'')]" and fk = "Str ''y''" and ft = "Str ''STRING''"
        and fpost = "[]", THEN conjunct2, THEN conjunct1]
    by (simp add: five)
  have succeeds: "\<exists>casted. CastValue spec_cast
       (MapOf [(Str ''y'', Str ''a''), (Str ''x'', Str ''5'')] :: unit Value) (MapOf ?schema) = Ok casted"
    using T [where lib = spec_cast and valueMap = "[(Str ''y'', Str ''a''), (Str ''x'', Str ''5'')]",
        THEN conjunct1]
    by (simp add: five a insert_commute)
  have undeclared: "CastValue spec_cast
       (MapOf [(Str ''x'', Str ''5''), (Str ''z'', Str ''1''), (Str ''y'', Str ''a'')] :: unit Value)
       (MapOf ?schema) = Fail (Error (ErrorUnsupportedKey (Str ''z'')) [])"
    using T [where lib = spec_cast
        and valueMap = "[(Str ''x'', Str ''5''), (Str ''z'', Str ''1''), (Str ''y'', Str ''a'')]"
        and vpre = "[(Str ''x'', Str ''5'')]" and vk = "Str ''z''" and vv = "Str ''1''"
        and vpost = "[(Str ''y'', Str ''a'')]", THEN conjunct2, THEN conjunct2, THEN conjunct1]
    by (simp add: five a)
  have true: "CastValue spec_cast (Boolean True :: unit Value) (Str ''STRING'') =
      Fail (Error (ErrorInvalidPrimitiveType (Boolean True) [PrimTypeString]) [])"
    by (simp add: CastValue_union castUnion_def castFloat_def castString_def castBool_def
        InvalidPrimitive_def)
  have failed: "CastValue spec_cast
       (MapOf [(Str ''x'', Str ''5''), (Str ''y'', Boolean True)] :: unit Value) (MapOf ?schema) =
     Fail (Wrap (Error (ErrorInvalidPrimitiveType (Boolean True) [PrimTypeString]) [])
             [UserStrStripped (Str ''y'')])"
    using T [where lib = spec_cast
        and valueMap = "[(Str ''x'', Str ''5''), (Str ''y'', Boolean True)]"
        and fpre = "[(Str ''x'', Str ''INT'')]" and fk = "Str ''y''" and ft = "Str ''STRING''"
        and fpost = "[]" and fv = "Boolean True"
        and e = "Error (ErrorInvalidPrimitiveType (Boolean True) [PrimTypeString]) []",
        THEN conjunct2, THEN conjunct2, THEN conjunct2, THEN conjunct2]
    by (simp add: five true)
  show ?thesis using absent succeeds undeclared failed by (simp add: Wrap_def)
qed

text \<open>
  The claim as stated gives \<^verbatim>\<open>MustBeDefined\<close> for every absent declared field and
  \<^verbatim>\<open>UnsupportedKey\<close> for every undeclared key. The value \<^verbatim>\<open>{x: "a"}\<close> against the
  schema \<^verbatim>\<open>{x: BOOL, y: STRING}\<close>, enumerated in this order, has the declared field
  \<^verbatim>\<open>y\<close> absent, and the cast fails with \<^verbatim>\<open>InvalidPrimitiveType\<close> at \<^verbatim>\<open>x\<close>, the field
  the loop of lines 341-351 reaches first. The value \<^verbatim>\<open>{z: "1", x: true}\<close> has the
  undeclared key \<^verbatim>\<open>z\<close>, and the cast fails with \<^verbatim>\<open>MustBeDefined\<close> at \<^verbatim>\<open>y\<close>, in
  every order of enumeration: the loop over the keys of the value (lines 352-356) runs
  after the loop over the declared fields. Neither cast looks at the numeric coercions.
\<close>

theorem fixed_map_first_error_counterexample:
  "CastValue spec_cast (MapOf [(Str ''x'', Str ''a'')] :: unit Value)
       (MapOf [(Str ''x'', Str ''BOOL''), (Str ''y'', Str ''STRING'')]) =
     Fail (Error (ErrorInvalidPrimitiveType (Str ''a'') [PrimTypeBool]) [UserStrStripped (Str ''x'')])
   \<and> CastValue spec_cast (MapOf [(Str ''z'', Str ''1''), (Str ''x'', Boolean True)] :: unit Value)
       (MapOf [(Str ''x'', Str ''BOOL''), (Str ''y'', Str ''STRING'')]) =
     Fail (Error ErrorMustBeDefined [UserStrStripped (Str ''y'')])
   \<and> CastValue spec_cast (MapOf [(Str ''z'', Str ''1''), (Str ''x'', Boolean True)] :: unit Value)
       (MapOf [(Str ''y'', Str ''STRING''), (Str ''x'', Str ''BOOL'')]) =
     Fail (Error ErrorMustBeDefined [UserStrStripped (Str ''y'')])"
proof -
  let ?xy = "[(Str ''x'', Str ''BOOL''), (Str ''y'', Str ''STRING'')] :: (unit Value \<times> unit Value) list"
  let ?yx = "[(Str ''y'', Str ''STRING''), (Str ''x'', Str ''BOOL'')] :: (unit Value \<times> unit Value) list"
  have valid: "ValidateValueType (MapOf ?xy) = Ok ()" "ValidateValueType (MapOf ?yx) = Ok ()"
    by (simp_all add: isValidValueType_def ValueTypeStrings_def)
  have gen: "genericMapOf ?xy = None" "genericMapOf ?yx = None"
    by (simp_all add: genericMapOf_def)
  have a: "CastValue spec_cast (Str ''a'' :: unit Value) (Str ''BOOL'') =
      Fail (Error (ErrorInvalidPrimitiveType (Str ''a'') [PrimTypeBool]) [])"
    by (simp add: CastValue_union castUnion_def castFloat_def castString_def castBool_def
        InvalidPrimitive_def)
  have true: "CastValue spec_cast (Boolean True :: unit Value) (Str ''BOOL'') = Ok (Boolean True)"
    by (simp add: CastValue_union castUnion_def castFloat_def castString_def castBool_def)
  have first: "CastValue spec_cast (MapOf [(Str ''x'', Str ''a'')] :: unit Value) (MapOf ?xy) =
     Fail (Wrap (Error (ErrorInvalidPrimitiveType (Str ''a'') [PrimTypeBool]) [])
             [UserStrStripped (Str ''x'')])"
    by (rule fixed_failed_field [OF valid(1) _ gen(1), where fpre = "[]" and t = "Str ''BOOL''"
          and fpost = "[(Str ''y'', Str ''STRING'')]" and v = "Str ''a''"])
       (simp_all add: a)
  have second: "CastValue spec_cast
       (MapOf [(Str ''z'', Str ''1''), (Str ''x'', Boolean True)] :: unit Value) (MapOf ?xy) =
     Fail (Error ErrorMustBeDefined [UserStrStripped (Str ''y'')])"
    by (rule fixed_absent_field [OF valid(1) _ gen(1), where fpre = "[(Str ''x'', Str ''BOOL'')]"
          and t = "Str ''STRING''" and fpost = "[]"])
       (simp_all add: true)
  have third: "CastValue spec_cast
       (MapOf [(Str ''z'', Str ''1''), (Str ''x'', Boolean True)] :: unit Value) (MapOf ?yx) =
     Fail (Error ErrorMustBeDefined [UserStrStripped (Str ''y'')])"
    by (rule fixed_absent_field [OF valid(2) _ gen(2), where fpre = "[]"
          and t = "Str ''STRING''" and fpost = "[(Str ''x'', Str ''BOOL'')]"])
       simp_all
  show ?thesis using first second third by (simp add: Wrap_def)
qed

subsection \<open>Location paths of errors\<close>

lemma CheckValueRuntimeTypesMatch_generic:
  assumes "isValidValueType kt"
  shows "CheckValueRuntimeTypesMatch (MapOf rm) (MapOf [(Str kt, vt)]) =
     (case results (match_entry kt vt) rm of
        Ok us \<Rightarrow> Ok () | Fail e \<Rightarrow> Fail e | Panic \<Rightarrow> Panic)"
proof -
  have gen: "genericMapOf [(Str kt, vt)] = Some (kt, vt)"
    using assms genericMapOf_Some_iff by blast
  have body: "(\<lambda>(runtimeTypeKey, runtimeTypeValue) (u :: unit).
                 case CheckValueRuntimeTypesMatch runtimeTypeKey (Str kt) of
                   Fail err \<Rightarrow> Fail err
                 | Panic \<Rightarrow> Panic
                 | Ok u' \<Rightarrow>
                     (case CheckValueRuntimeTypesMatch runtimeTypeValue vt of
                        Fail err \<Rightarrow> Fail (Wrap err [UserStrStripped runtimeTypeKey])
                      | Panic \<Rightarrow> Panic
                      | Ok u'' \<Rightarrow> Ok ()))
     = (\<lambda>x u. match_entry kt vt x)"
    by (intro ext) (simp add: match_entry_def split: prod.splits)
  show ?thesis
    unfolding CheckValueRuntimeTypesMatch_MapOf
    by (simp add: gen body range_loop_unit_results)
qed

lemma CheckValueRuntimeTypesMatch_fixed:
  assumes "genericMapOf sm = None"
  shows "CheckValueRuntimeTypesMatch (MapOf rm) (MapOf sm) =
     (case results (match_field rm) sm of
        Fail e \<Rightarrow> Fail e
      | Panic \<Rightarrow> Panic
      | Ok us \<Rightarrow>
          (case results (declared_key sm) rm of
             Ok us' \<Rightarrow> Ok () | Fail e \<Rightarrow> Fail e | Panic \<Rightarrow> Panic))"
proof -
  have body: "(\<lambda>(schemaTypeKey, schemaTypeValue) (u :: unit).
                 case map_of rm schemaTypeKey of
                   None \<Rightarrow> Fail (Wrap (Error ErrorMustBeDefined []) [UserStrStripped schemaTypeKey])
                 | Some runtimeTypeValue \<Rightarrow>
                     (case CheckValueRuntimeTypesMatch runtimeTypeValue schemaTypeValue of
                        Fail err \<Rightarrow> Fail (Wrap err [UserStrStripped schemaTypeKey])
                      | Panic \<Rightarrow> Panic
                      | Ok u' \<Rightarrow> Ok ()))
     = (\<lambda>x u. match_field rm x)"
    by (intro ext) (simp add: match_field_def split: prod.splits)
  have keys: "(\<lambda>(runtimeTypeKey, runtimeTypeValue) (u' :: unit).
                 case map_of sm runtimeTypeKey of
                   None \<Rightarrow> Fail (Error (ErrorUnsupportedKey runtimeTypeKey) [])
                 | Some schemaTypeValue \<Rightarrow> Ok ())
     = (\<lambda>x u. declared_key sm x)"
    by (intro ext) (simp add: declared_key_def split: prod.splits)
  have "CheckValueRuntimeTypesMatch (MapOf rm) (MapOf sm) =
     (case range_loop sm ()
             (\<lambda>(schemaTypeKey, schemaTypeValue) u.
                case map_of rm schemaTypeKey of
                  None \<Rightarrow> Fail (Wrap (Error ErrorMustBeDefined []) [UserStrStripped schemaTypeKey])
                | Some runtimeTypeValue \<Rightarrow>
                    (case CheckValueRuntimeTypesMatch runtimeTypeValue schemaTypeValue of
                       Fail err \<Rightarrow> Fail (Wrap err [UserStrStripped schemaTypeKey])
                     | Panic \<Rightarrow> Panic
                     | Ok u' \<Rightarrow> Ok ()))
      of Fail err \<Rightarrow> Fail err
       | Panic \<Rightarrow> Panic
       | Ok u \<Rightarrow>
           range_loop rm ()
             (\<lambda>(runtimeTypeKey, runtimeTypeValue) u'.
                case map_of sm runtimeTypeKey of
                  None \<Rightarrow> Fail (Error (ErrorUnsupportedKey runtimeTypeKey) [])
                | Some schemaTypeValue \<Rightarrow> Ok ()))"
    by (simp add: CheckValueRuntimeTypesMatch_MapOf assms)
  then show ?thesis
    unfolding body keys range_loop_unit_results
    by (simp split: outcome.splits)
qed


lemma cast_item_succeeds_iff:
  "(\<exists>c. cast_item lib s x = Ok c) \<longleftrightarrow> casts lib (snd x) (Str s)"
  by (cases x) (auto simp: cast_item_def casts_def split: outcome.splits)

lemma cast_entry_succeeds_iff:
  "(\<exists>c. cast_entry lib kt vt x = Ok c) \<longleftrightarrow>
     casts lib (fst x) (Str kt) \<and> casts lib (snd x) vt"
  by (cases x) (auto simp: cast_entry_def casts_def split: outcome.splits)

lemma cast_field_succeeds_casts:
  "(\<exists>c. cast_field lib valueMap x = Ok c) \<longleftrightarrow>
     (\<exists>v. map_of valueMap (fst x) = Some v \<and> casts lib v (snd x))"
  by (cases x) (auto simp: cast_field_Ok_iff casts_def)

lemma match_entry_Ok_iff:
  "match_entry kt vt x = Ok u \<longleftrightarrow>
     CheckValueRuntimeTypesMatch (fst x) (Str kt) = Ok () \<and>
     CheckValueRuntimeTypesMatch (snd x) vt = Ok ()"
  by (cases x) (auto simp: match_entry_def split: outcome.splits)

lemma match_field_Ok_iff:
  "match_field rm x = Ok u \<longleftrightarrow>
     (\<exists>rv. map_of rm (fst x) = Some rv \<and> CheckValueRuntimeTypesMatch rv (snd x) = Ok ())"
  by (cases x) (auto simp: match_field_def split: outcome.splits option.splits)

lemma frame_cast_item:
  assumes "isValidValueType s" and "\<forall>y \<in> set pre. casts lib y (Str s)"
    and "CastValue lib x (Str s) = Fail e"
  shows "CastValue lib (Slice (pre @ x # post)) (Slice [Str s]) = Fail (Wrap e [Index (length pre)])"
proof -
  have en: "enumerate 0 (pre @ x # post) =
      enumerate 0 pre @ (length pre, x) # enumerate (Suc (length pre)) post"
    by (simp add: enumerate_append_eq)
  have "\<forall>y \<in> set (enumerate 0 pre). \<exists>c. cast_item lib s y = Ok c"
    using assms(2) by (auto simp: cast_item_succeeds_iff in_set_enumerate_eq)
  moreover have "cast_item lib s (length pre, x) = Fail (Wrap e [Index (length pre)])"
    using assms(3) by (simp add: cast_item_def)
  ultimately have "results (cast_item lib s) (enumerate 0 (pre @ x # post)) =
      Fail (Wrap e [Index (length pre)])"
    unfolding en by (rule results_first_Fail)
  then show ?thesis by (simp add: CastValue_Slice [OF assms(1)])
qed

lemma frame_cast_field:
  assumes "ValidateValueType (MapOf fieldTypes) = Ok ()" and "fieldTypes \<noteq> []"
    and "genericMapOf fieldTypes = None"
    and "fieldTypes = fpre @ (fk, ft) # fpost"
    and "\<forall>(k, t) \<in> set fpre. \<exists>v. map_of valueMap k = Some v \<and> casts lib v t"
    and "map_of valueMap fk = Some fv" and "CastValue lib fv ft = Fail e"
  shows "CastValue lib (MapOf valueMap) (MapOf fieldTypes) = Fail (Wrap e [UserStrStripped fk])"
proof -
  have "\<forall>(k', t') \<in> set fpre. \<exists>v c. map_of valueMap k' = Some v \<and> CastValue lib v t' = Ok c"
    using assms(5) by (auto simp: casts_def)
  then show ?thesis
    using assms(6,7) by (intro fixed_failed_field [OF assms(1-4)])
qed

lemma frame_cast_entry_value:
  assumes "isValidValueType kt" and "ValidateValueType vt = Ok ()"
    and "\<forall>(k, v) \<in> set epre. casts lib k (Str kt) \<and> casts lib v vt"
    and "casts lib ek (Str kt)" and "CastValue lib ev vt = Fail e"
  shows "CastValue lib (MapOf (epre @ (ek, ev) # epost)) (MapOf [(Str kt, vt)]) =
           Fail (Wrap e [UserStrStripped ek])"
proof -
  have "\<forall>y \<in> set epre. \<exists>c. cast_entry lib kt vt y = Ok c"
    using assms(3) unfolding cast_entry_succeeds_iff by auto
  moreover have "cast_entry lib kt vt (ek, ev) = Fail (Wrap e [UserStrStripped ek])"
    using assms(4,5) by (auto simp: cast_entry_def casts_def)
  ultimately have "results (cast_entry lib kt vt) (epre @ (ek, ev) # epost) =
      Fail (Wrap e [UserStrStripped ek])"
    by (rule results_first_Fail)
  then show ?thesis by (simp add: CastValue_generic [OF assms(1,2)])
qed

lemma frame_cast_entry_key:
  assumes "isValidValueType kt" and "ValidateValueType vt = Ok ()"
    and "\<forall>(k, v) \<in> set epre. casts lib k (Str kt) \<and> casts lib v vt"
    and "CastValue lib ek (Str kt) = Fail e"
  shows "CastValue lib (MapOf (epre @ (ek, ev) # epost)) (MapOf [(Str kt, vt)]) = Fail e"
proof -
  have "\<forall>y \<in> set epre. \<exists>c. cast_entry lib kt vt y = Ok c"
    using assms(3) unfolding cast_entry_succeeds_iff by auto
  moreover have "cast_entry lib kt vt (ek, ev) = Fail e"
    using assms(4) by (simp add: cast_entry_def)
  ultimately have "results (cast_entry lib kt vt) (epre @ (ek, ev) # epost) = Fail e"
    by (rule results_first_Fail)
  then show ?thesis by (simp add: CastValue_generic [OF assms(1,2)])
qed

lemma frame_match_field:
  assumes "genericMapOf sm = None" and "sm = spre @ (sk, st) # spost"
    and "\<forall>(k, t) \<in> set spre. \<exists>rv. map_of rm k = Some rv \<and> CheckValueRuntimeTypesMatch rv t = Ok ()"
    and "map_of rm sk = Some srv" and "CheckValueRuntimeTypesMatch srv st = Fail e"
  shows "CheckValueRuntimeTypesMatch (MapOf rm) (MapOf sm) = Fail (Wrap e [UserStrStripped sk])"
proof -
  have "\<forall>y \<in> set spre. \<exists>c. match_field rm y = Ok c"
    using assms(3) unfolding match_field_Ok_iff by auto
  moreover have "match_field rm (sk, st) = Fail (Wrap e [UserStrStripped sk])"
    using assms(4,5) by (simp add: match_field_def)
  ultimately have "results (match_field rm) (spre @ (sk, st) # spost) =
      Fail (Wrap e [UserStrStripped sk])"
    by (rule results_first_Fail)
  then show ?thesis
    unfolding CheckValueRuntimeTypesMatch_fixed [OF assms(1)] using assms(2) by simp
qed

lemma frame_match_entry_value:
  assumes "isValidValueType kt"
    and "\<forall>(k, v) \<in> set rpre. CheckValueRuntimeTypesMatch k (Str kt) = Ok () \<and>
           CheckValueRuntimeTypesMatch v vt = Ok ()"
    and "CheckValueRuntimeTypesMatch rk (Str kt) = Ok ()"
    and "CheckValueRuntimeTypesMatch rv vt = Fail e"
  shows "CheckValueRuntimeTypesMatch (MapOf (rpre @ (rk, rv) # rpost)) (MapOf [(Str kt, vt)]) =
           Fail (Wrap e [UserStrStripped rk])"
proof -
  have "\<forall>y \<in> set rpre. \<exists>c. match_entry kt vt y = Ok c"
    using assms(2) unfolding match_entry_Ok_iff by auto
  moreover have "match_entry kt vt (rk, rv) = Fail (Wrap e [UserStrStripped rk])"
    using assms(3,4) by (simp add: match_entry_def)
  ultimately have "results (match_entry kt vt) (rpre @ (rk, rv) # rpost) =
      Fail (Wrap e [UserStrStripped rk])"
    by (rule results_first_Fail)
  then show ?thesis by (simp add: CheckValueRuntimeTypesMatch_generic [OF assms(1)])
qed

lemma frame_match_entry_key:
  assumes "isValidValueType kt"
    and "\<forall>(k, v) \<in> set rpre. CheckValueRuntimeTypesMatch k (Str kt) = Ok () \<and>
           CheckValueRuntimeTypesMatch v vt = Ok ()"
    and "CheckValueRuntimeTypesMatch rk (Str kt) = Fail e"
  shows "CheckValueRuntimeTypesMatch (MapOf (rpre @ (rk, rv) # rpost)) (MapOf [(Str kt, vt)]) = Fail e"
proof -
  have "\<forall>y \<in> set rpre. \<exists>c. match_entry kt vt y = Ok c"
    using assms(2) unfolding match_entry_Ok_iff by auto
  moreover have "match_entry kt vt (rk, rv) = Fail e"
    using assms(3) by (simp add: match_entry_def)
  ultimately have "results (match_entry kt vt) (rpre @ (rk, rv) # rpost) = Fail e"
    by (rule results_first_Fail)
  then show ?thesis by (simp add: CheckValueRuntimeTypesMatch_generic [OF assms(1)])
qed

lemma frame_match_list:
  assumes "CheckValueRuntimeTypesMatch (Str r0 :: 'f Value) (Str s0) \<noteq> Ok ()"
  shows "CheckValueRuntimeTypesMatch (Slice [Str r0] :: 'f Value) (Slice [Str s0]) =
           Fail (Error (ErrorUnsupportedDataType (Slice [Str r0]) (Slice [Str s0])) [])"
  using assms
  by (simp add: CheckValueRuntimeTypesMatch_Slice CheckValueRuntimeTypesMatch_Str split: if_splits)


text \<open>
  Claim C6, as amended. An error that returns through a recursive frame of
  \<^verbatim>\<open>CastValue\<close> is wrapped with one path segment in front of its path when the frame is
  a list element (the element's index), a field of a fixed map (the field's key) or the
  value of a generic-map entry (the entry's key); the error of a generic-map entry's key
  cast is returned as it is, with no segment added. \<^verbatim>\<open>CheckValueRuntimeTypesMatch\<close>
  does the same for the fields of a fixed map and for the values and keys of the entries
  of a generic map; against a list schema it does not recurse, and a mismatch of the
  element is reported for the whole list with an empty path. In each case the error is
  that of the first element, in the order of enumeration, that does not succeed.
  Wrapping keeps the kind of the error and puts the segments in front of its path.
\<close>

theorem error_path_frames:
  "(isValidValueType s \<and> (\<forall>y \<in> set pre. casts lib y (Str s)) \<and>
      CastValue lib x (Str s) = Fail e \<longrightarrow>
        CastValue lib (Slice (pre @ x # post)) (Slice [Str s]) =
          Fail (Wrap e [Index (length pre)]))
   \<and> (ValidateValueType (MapOf fieldTypes) = Ok () \<and> fieldTypes \<noteq> [] \<and>
      genericMapOf fieldTypes = None \<and> fieldTypes = fpre @ (fk, ft) # fpost \<and>
      (\<forall>(k, t) \<in> set fpre. \<exists>v. map_of valueMap k = Some v \<and> casts lib v t) \<and>
      map_of valueMap fk = Some fv \<and> CastValue lib fv ft = Fail e \<longrightarrow>
        CastValue lib (MapOf valueMap) (MapOf fieldTypes) = Fail (Wrap e [UserStrStripped fk]))
   \<and> (isValidValueType kt \<and> ValidateValueType vt = Ok () \<and>
      (\<forall>(k, v) \<in> set epre. casts lib k (Str kt) \<and> casts lib v vt) \<and>
      casts lib ek (Str kt) \<and> CastValue lib ev vt = Fail e \<longrightarrow>
        CastValue lib (MapOf (epre @ (ek, ev) # epost)) (MapOf [(Str kt, vt)]) =
          Fail (Wrap e [UserStrStripped ek]))
   \<and> (isValidValueType kt \<and> ValidateValueType vt = Ok () \<and>
      (\<forall>(k, v) \<in> set epre. casts lib k (Str kt) \<and> casts lib v vt) \<and>
      CastValue lib ek (Str kt) = Fail e \<longrightarrow>
        CastValue lib (MapOf (epre @ (ek, ev) # epost)) (MapOf [(Str kt, vt)]) = Fail e)
   \<and> (genericMapOf sm = None \<and> sm = spre @ (sk, st) # spost \<and>
      (\<forall>(k, t) \<in> set spre. \<exists>rv. map_of rm k = Some rv \<and>
          CheckValueRuntimeTypesMatch rv t = Ok ()) \<and>
      map_of rm sk = Some srv \<and> CheckValueRuntimeTypesMatch srv st = Fail e \<longrightarrow>
        CheckValueRuntimeTypesMatch (MapOf rm) (MapOf sm) = Fail (Wrap e [UserStrStripped sk]))
   \<and> (isValidValueType kt \<and>
      (\<forall>(k, v) \<in> set rpre. CheckValueRuntimeTypesMatch k (Str kt) = Ok () \<and>
          CheckValueRuntimeTypesMatch v vt = Ok ()) \<and>
      CheckValueRuntimeTypesMatch rk (Str kt) = Ok () \<and>
      CheckValueRuntimeTypesMatch rv vt = Fail e \<longrightarrow>
        CheckValueRuntimeTypesMatch (MapOf (rpre @ (rk, rv) # rpost)) (MapOf [(Str kt, vt)]) =
          Fail (Wrap e [UserStrStripped rk]))
   \<and> (isValidValueType kt \<and>
      (\<forall>(k, v) \<in> set rpre. CheckValueRuntimeTypesMatch k (Str kt) = Ok () \<and>
          CheckValueRuntimeTypesMatch v vt = Ok ()) \<and>
      CheckValueRuntimeTypesMatch rk (Str kt) = Fail e \<longrightarrow>
        CheckValueRuntimeTypesMatch (MapOf (rpre @ (rk, rv) # rpost)) (MapOf [(Str kt, vt)]) =
          Fail e)
   \<and> (CheckValueRuntimeTypesMatch (Str r0 :: 'f Value) (Str s0) \<noteq> Ok () \<longrightarrow>
        CheckValueRuntimeTypesMatch (Slice [Str r0] :: 'f Value) (Slice [Str s0]) =
          Fail (Error (ErrorUnsupportedDataType (Slice [Str r0]) (Slice [Str s0])) []))
   \<and> kind (Wrap (e :: 'f Error) segments) = kind e
   \<and> path (Wrap e segments) = segments @ path e"
  by (intro conjI impI)
     (elim conjE, rule frame_cast_item, assumption+,
      elim conjE, rule frame_cast_field, assumption+,
      elim conjE, rule frame_cast_entry_value, assumption+,
      elim conjE, rule frame_cast_entry_key, assumption+,
      elim conjE, rule frame_match_field, assumption+,
      elim conjE, rule frame_match_entry_value, assumption+,
      elim conjE, rule frame_match_entry_key, assumption+,
      rule frame_match_list, assumption,
      simp_all add: Wrap_def)

theorem error_path_frames_witness:
  "CastValue spec_cast (MapOf [(Str ''a'', Slice [Str ''1'', Str ''x''])] :: unit Value)
       (MapOf [(Str ''a'', Slice [Str ''INT''])]) =
     Fail (Error (ErrorInvalidPrimitiveType (Str ''x'') [PrimTypeInt])
             [UserStrStripped (Str ''a''), Index 1])"
proof -
  let ?e = "Error (ErrorInvalidPrimitiveType (Str ''x'') [PrimTypeInt]) [] :: unit Error"
  have one: "casts spec_cast (Str ''1'' :: unit Value) (Str ''INT'')"
    by (simp add: casts_def CastValue_union castUnion_def parse_int64_def digit_of_def)
  have x: "CastValue spec_cast (Str ''x'' :: unit Value) (Str ''INT'') = Fail ?e"
    by (simp add: CastValue_union castUnion_def castFloat_def castString_def castBool_def
        InvalidPrimitive_def parse_int64_def digit_of_def)
  have item: "CastValue spec_cast (Slice [Str ''1'', Str ''x''] :: unit Value) (Slice [Str ''INT'']) =
      Fail (Wrap ?e [Index 1])"
    using error_path_frames [where lib = spec_cast and s = "''INT''" and pre = "[Str ''1'']"
        and x = "Str ''x''" and post = "[]" and e = ?e, THEN conjunct1]
    by (simp add: one x)
  have valid: "ValidateValueType (MapOf [(Str ''a'', Slice [Str ''INT''])] :: unit Value) = Ok ()"
    by (simp add: isValidValueType_def ValueTypeStrings_def)
  have gen: "genericMapOf [(Str ''a'', Slice [Str ''INT''] :: unit Value)] = None"
    by (simp add: genericMapOf_def isValidValueType_def ValueTypeStrings_def)
  have "CastValue spec_cast (MapOf [(Str ''a'', Slice [Str ''1'', Str ''x''])] :: unit Value)
       (MapOf [(Str ''a'', Slice [Str ''INT''])]) =
     Fail (Wrap (Wrap ?e [Index 1]) [UserStrStripped (Str ''a'')])"
    using error_path_frames [where lib = spec_cast
        and fieldTypes = "[(Str ''a'', Slice [Str ''INT''])]" and fpre = "[]"
        and fk = "Str ''a''" and ft = "Slice [Str ''INT'']" and fpost = "[]"
        and valueMap = "[(Str ''a'', Slice [Str ''1'', Str ''x''])]"
        and fv = "Slice [Str ''1'', Str ''x'']" and e = "Wrap ?e [Index 1]",
        THEN conjunct2, THEN conjunct1]
    by (simp add: valid gen item del: ValidateValueType.simps)
  then show ?thesis by (simp add: Wrap_def)
qed

text \<open>
  The claim as stated has every error carry a segment for the frame it passes, also when
  the cast of a generic-map key fails. The integer key 5 does not cast to a string key;
  the error comes back with an empty path (line 328 returns \<open>err\<close> unwrapped).
\<close>

theorem generic_key_error_unwrapped_counterexample:
  "CastValue spec_cast (MapOf [(Int64 5, Str ''a'')] :: unit Value)
       (MapOf [(Str ''STRING'', Str ''STRING'')]) =
     Fail (Error (ErrorInvalidPrimitiveType (Int64 5) [PrimTypeString]) [])"
  by (simp add: CastValue_generic cast_entry_def CastValue_union castUnion_def castFloat_def
      castString_def castBool_def InvalidPrimitive_def)

subsection \<open>Casting twice\<close>

lemma assert_string_Some: "assert_string v = Some s \<Longrightarrow> v = Str s"
  by (cases v) auto

lemma assert_bool_Some: "assert_bool v = Some b \<Longrightarrow> v = Boolean b"
  by (cases v) auto

lemma castUnion_idempotent:
  assumes "canonical_coercions lib" and "castUnion lib v s = Ok c"
  shows "castUnion lib c s = Ok c \<and> c \<noteq> Null"
proof -
  have int: "InterfaceToInt64 lib (Int64 i) = Some i" for i
    using assms(1) by (simp add: canonical_coercions_def)
  have float: "InterfaceToFloat64 lib (Float64 f) = Some f" for f
    using assms(1) by (simp add: canonical_coercions_def)
  have float_int: "InterfaceToInt64 lib (Float64 f) = None"
    if "InterfaceToInt64 lib v = None" and "InterfaceToFloat64 lib v = Some f" for f
    using assms(1) that unfolding canonical_coercions_def by blast
  consider
      (i) i where "HasString (Split s CHR ''|'') ''INT''" "InterfaceToInt64 lib v = Some i" "c = Int64 i"
    | (f) f where "\<not> HasString (Split s CHR ''|'') ''INT'' \<or> InterfaceToInt64 lib v = None"
        "HasString (Split s CHR ''|'') ''FLOAT''" "InterfaceToFloat64 lib v = Some f" "c = Float64 f"
    | (s) "c = v" "\<exists>x. v = Str x"
    | (b) "c = v" "\<exists>x. v = Boolean x"
    using assms(2)
    by (auto simp: castUnion_def castFloat_def castString_def castBool_def InvalidPrimitive_def
          Let_def split: if_splits option.splits dest!: assert_string_Some assert_bool_Some)
  then show ?thesis
  proof cases
    case i
    then show ?thesis by (simp add: castUnion_def Let_def int)
  next
    case f
    then show ?thesis
      by (auto simp: castUnion_def castFloat_def Let_def float float_int)
  next
    case s
    then show ?thesis using assms(2) by auto
  next
    case b
    then show ?thesis using assms(2) by auto
  qed
qed

lemma CastValue_Ok_valid:
  "CastValue lib v t = Ok c \<Longrightarrow> ValidateValueType t = Ok ()"
  by (subst (asm) CastValue.simps) (simp split: outcome.splits del: ValidateValueType.simps)

lemma set_update_subset: "set (AList.update k v al) \<subseteq> insert (k, v) (set al)"
  by (induction al) auto

lemma set_fold_update_subset:
  "set (fold (\<lambda>(k, v). AList.update k v) cs acc) \<subseteq> set acc \<union> set cs"
proof (induction cs arbitrary: acc)
  case Nil
  show ?case by simp
next
  case (Cons c cs)
  obtain k v where c: "c = (k, v)" by (cases c)
  show ?case
    using Cons [of "AList.update k v acc"] set_update_subset [of k v acc]
    by (auto simp: c)
qed

lemma set_collect_subset: "set (collect cs) \<subseteq> set cs"
  using set_fold_update_subset [of cs "[]"] by (simp add: collect_def)

lemma distinct_fold_update:
  "distinct (map fst acc) \<Longrightarrow> distinct (map fst (fold (\<lambda>(k, v). AList.update k v) cs acc))"
proof (induction cs arbitrary: acc)
  case Nil
  then show ?case by simp
next
  case (Cons c cs)
  obtain k v where c: "c = (k, v)" by (cases c)
  show ?case using Cons by (simp add: c distinct_update)
qed

lemma distinct_collect: "distinct (map fst (collect cs))"
  using distinct_fold_update [of "[]" cs] by (simp add: collect_def)

lemma fold_update_append:
  "distinct (map fst m) \<Longrightarrow> fst ` set m \<inter> fst ` set acc = {} \<Longrightarrow>
     fold (\<lambda>(k, v). AList.update k v) m acc = acc @ m"
proof (induction m arbitrary: acc)
  case Nil
  show ?case by simp
next
  case (Cons p m)
  obtain k v where p: "p = (k, v)" by (cases p)
  have new: "k \<notin> fst ` set acc" using Cons.prems p by auto
  have "fold (\<lambda>(k, v). AList.update k v) m (acc @ [(k, v)]) = (acc @ [(k, v)]) @ m"
    using Cons.prems p by (intro Cons.IH) auto
  then show ?case using new by (simp add: p update_new_key)
qed

lemma collect_distinct: "distinct (map fst m) \<Longrightarrow> collect m = m"
  using fold_update_append [of m "[]"] by (simp add: collect_def)

lemma results_same:
  "(\<forall>x \<in> set xs. g x = Ok x) \<Longrightarrow> results g xs = Ok xs"
  by (induction xs) auto

lemma cast_item_Ok_iff:
  "cast_item lib s (i, x) = Ok c \<longleftrightarrow> CastValue lib x (Str s) = Ok c"
  by (auto simp: cast_item_def split: outcome.splits)

lemma results_cast_item_iff:
  "results (cast_item lib s) (enumerate n xs) = Ok cs \<longleftrightarrow>
     list_all2 (\<lambda>x c. CastValue lib x (Str s) = Ok c) xs cs"
proof (induction xs arbitrary: n cs)
  case Nil
  show ?case by auto
next
  case (Cons x xs)
  show ?case
  proof (cases cs)
    case Nil
    then show ?thesis by (simp split: outcome.splits)
  next
    case (Cons c cs')
    have "results (cast_item lib s) (enumerate n (x # xs)) = Ok (c # cs') \<longleftrightarrow>
        cast_item lib s (n, x) = Ok c \<and>
        results (cast_item lib s) (enumerate (Suc n) xs) = Ok cs'"
      by (auto split: outcome.splits)
    then show ?thesis
      using Cons.IH [of "Suc n" cs'] by (simp add: Cons cast_item_Ok_iff)
  qed
qed

lemma list_all2_rightD:
  "list_all2 P xs ys \<Longrightarrow> y \<in> set ys \<Longrightarrow> \<exists>x \<in> set xs. P x y"
  by (induction rule: list_all2_induct) auto


lemma go_value_field: "go_value (MapOf m) \<Longrightarrow> (k, t) \<in> set m \<Longrightarrow> go_value t"
  by (auto simp: list_all_iff)

lemma cast_idempotent_generic:
  assumes kt: "isValidValueType kt" and vt: "ValidateValueType vt = Ok ()"
    and IH: "\<And>k v c t. (k, v) \<in> set vm \<Longrightarrow> t = Str kt \<or> t = vt \<Longrightarrow>
               (CastValue lib k t = Ok c \<longrightarrow> CastValue lib c t = Ok c) \<and>
               (CastValue lib v t = Ok c \<longrightarrow> CastValue lib c t = Ok c)"
    and ok: "CastValue lib (MapOf vm) (MapOf [(Str kt, vt)]) = Ok casted"
  shows "CastValue lib casted (MapOf [(Str kt, vt)]) = Ok casted"
proof -
  obtain cs where cs: "results (cast_entry lib kt vt) vm = Ok cs"
      and casted: "casted = MapOf (collect cs)"
    using ok unfolding CastValue_generic [OF kt vt] by (auto split: outcome.splits)
  have all2: "list_all2 (\<lambda>x c. cast_entry lib kt vt x = Ok c) vm cs"
    using cs by (simp add: results_Ok_iff)
  have fixed: "cast_entry lib kt vt y = Ok y" if y: "y \<in> set cs" for y
  proof -
    obtain x where x: "x \<in> set vm" and xy: "cast_entry lib kt vt x = Ok y"
      using list_all2_rightD [OF all2 y] by blast
    obtain k v where kv: "x = (k, v)" by (cases x)
    obtain kc vc where y': "y = (kc, vc)" by (cases y)
    have k: "CastValue lib k (Str kt) = Ok kc" and v: "CastValue lib v vt = Ok vc"
      using xy by (auto simp: kv y' cast_entry_def split: outcome.splits)
    have "CastValue lib kc (Str kt) = Ok kc"
      using IH [where k = k and v = v and c = kc and t = "Str kt"] x kv k by simp
    moreover have "CastValue lib vc vt = Ok vc"
      using IH [where k = k and v = v and c = vc and t = vt] x kv v by simp
    ultimately show ?thesis by (simp add: y' cast_entry_def)
  qed
  have "results (cast_entry lib kt vt) (collect cs) = Ok (collect cs)"
    using fixed set_collect_subset [of cs] by (intro results_same) blast
  moreover have "collect (collect cs) = collect cs"
    by (simp add: collect_distinct distinct_collect)
  ultimately show ?thesis
    unfolding casted CastValue_generic [OF kt vt] by simp
qed

lemma cast_idempotent_fixed:
  assumes valid: "ValidateValueType (MapOf tm) = Ok ()" and ne: "tm \<noteq> []"
    and gen: "genericMapOf tm = None" and dist: "distinct (map fst tm)"
    and IH: "\<And>k v c t. (k, v) \<in> set vm \<Longrightarrow> (k, t) \<in> set tm \<Longrightarrow>
               CastValue lib v t = Ok c \<Longrightarrow> CastValue lib c t = Ok c"
    and ok: "CastValue lib (MapOf vm) (MapOf tm) = Ok casted"
  shows "CastValue lib casted (MapOf tm) = Ok casted"
proof -
  obtain cs where cs: "results (cast_field lib vm) tm = Ok cs"
      and casted: "casted = MapOf (assign tm cs)"
    using ok unfolding CastValue_fixed [OF valid ne gen] by (auto split: outcome.splits)
  have all2: "list_all2 (\<lambda>x c. cast_field lib vm x = Ok c) tm cs"
    using cs by (simp add: results_Ok_iff)
  then have len: "length tm = length cs" by (rule list_all2_lengthD)
  define R where "R = zip (map fst tm) cs"
  have R: "assign tm cs = R" using dist len by (simp add: R_def assign_distinct)
  have "list_all2 (\<lambda>x c. cast_field lib R x = Ok c) tm cs"
    unfolding list_all2_conv_all_nth
  proof (intro conjI allI impI)
    show "length tm = length cs" by (rule len)
  next
    fix i assume i: "i < length tm"
    obtain k t where kt: "tm ! i = (k, t)" by (cases "tm ! i")
    have mem: "(k, t) \<in> set tm" using i kt by (metis nth_mem)
    have "cast_field lib vm (tm ! i) = Ok (cs ! i)"
      using all2 i by (simp add: list_all2_conv_all_nth)
    then obtain v where v: "map_of vm k = Some v" and c: "CastValue lib v t = Ok (cs ! i)"
      by (auto simp: kt cast_field_Ok_iff)
    have "CastValue lib (cs ! i) t = Ok (cs ! i)"
      using IH [OF map_of_SomeD [OF v] mem c] .
    moreover have "map_of R k = Some (cs ! i)"
    proof -
      have "map_of (zip (map fst tm) cs) (map fst tm ! i) = Some (cs ! i)"
        using dist len i by (intro map_of_zip_nth) simp_all
      then show ?thesis using i kt by (simp add: R_def)
    qed
    ultimately show "cast_field lib R (tm ! i) = Ok (cs ! i)"
      by (simp add: kt cast_field_Ok_iff)
  qed
  then have one: "results (cast_field lib R) tm = Ok cs"
    by (simp add: results_Ok_iff)
  have "\<forall>x \<in> set R. \<exists>u. declared_key tm x = Ok u"
    unfolding declared_key_succeeds_iff R_def
    by (auto dest!: set_zip_leftD)
  then obtain us where two: "results (declared_key tm) R = Ok us"
    using results_succeeds_iff by blast
  show ?thesis
    unfolding casted R CastValue_fixed [OF valid ne gen] using one two R by simp
qed

text \<open>
  Claim C7. For every value and every schema on which \<^verbatim>\<open>CastValue\<close> succeeds, casting
  the result again against the same schema succeeds and returns the result unchanged.
  The schema is a Go value (its maps have distinct keys), and the numeric coercions are
  canonical in the sense of \<open>canonical_coercions\<close>.
\<close>

theorem cast_idempotent:
  assumes "canonical_coercions lib" and "go_value schema"
    and "CastValue lib value schema = Ok casted"
  shows "CastValue lib casted schema = Ok casted"
  using assms(2,3)
proof (induction "size value" arbitrary: "value" schema casted rule: less_induct)
  case less
  have valid: "ValidateValueType schema = Ok ()"
    using less.prems(2) by (rule CastValue_Ok_valid)
  show ?case
  proof (cases "value = Null")
    case True
    then show ?thesis using less.prems(2) valid by (simp add: CastValue_Null)
  next
    case False
    show ?thesis
    proof (cases schema)
      case (Str s)
      then have s: "isValidValueType s" using valid by (simp split: if_splits)
      then show ?thesis
        using castUnion_idempotent [OF assms(1), of "value" s casted] less.prems(2) False Str
        by (simp add: CastValue_union)
    next
      case (Slice elems)
      then obtain s where elems: "elems = [Str s]" and s: "isValidValueType s"
        using valid ValidateValueType_Slice_iff [of elems] by blast
      obtain xs where xs: "value = Slice xs"
        using less.prems(2) False CastValue_not_slice [OF s False, of lib]
        by (cases "InterfaceToInterfaceSlice value")
           (auto simp: Slice elems InterfaceToInterfaceSlice_Some_iff)
      obtain cs where cs: "results (cast_item lib s) (enumerate 0 xs) = Ok cs"
          and casted: "casted = Slice cs"
        using less.prems(2) unfolding xs Slice elems CastValue_Slice [OF s]
        by (auto split: outcome.splits)
      have all2: "list_all2 (\<lambda>x c. CastValue lib x (Str s) = Ok c) xs cs"
        using cs by (simp add: results_cast_item_iff)
      have "CastValue lib c (Str s) = Ok c" if c: "c \<in> set cs" for c
      proof -
        obtain x where x: "x \<in> set xs" and xc: "CastValue lib x (Str s) = Ok c"
          using list_all2_rightD [OF all2 c] by blast
        have "size x < size value" using x xs size_item_in_list [of x xs] by simp
        then show ?thesis using less.hyps [of x "Str s" c] xc by simp
      qed
      then have "list_all2 (\<lambda>x c. CastValue lib x (Str s) = Ok c) cs cs"
        by (simp add: list_all2_same)
      then have "results (cast_item lib s) (enumerate 0 cs) = Ok cs"
        by (simp add: results_cast_item_iff)
      then show ?thesis
        unfolding casted Slice elems CastValue_Slice [OF s] by simp
    next
      case (MapOf tm)
      obtain vm where vm: "value = MapOf vm"
        using less.prems(2) False CastValue_not_map [of tm "value" lib] valid
        by (cases "InterfaceToInterfaceInterfaceMap value")
           (auto simp: MapOf InterfaceToInterfaceInterfaceMap_Some_iff)
      have sub: "CastValue lib c t = Ok c"
        if "(k, v) \<in> set vm" and "x = k \<or> x = v" and "go_value t" and "CastValue lib x t = Ok c"
        for k v x t c
      proof -
        have "size x < size value"
          using that(1,2) vm size_entry_in_list [of k v vm] by auto
        then show ?thesis using less.hyps [of x t c] that(3,4) by simp
      qed
      show ?thesis
      proof (cases "tm = []")
        case True
        then show ?thesis
          using less.prems(2) unfolding vm MapOf
          by (auto simp: CastValue_MapOf_empty split: if_splits)
      next
        case ne: False
        show ?thesis
        proof (cases "genericMapOf tm")
          case (Some g)
          obtain kt vt where g: "g = (kt, vt)" by (cases g)
          then have tm: "tm = [(Str kt, vt)]" and kt: "isValidValueType kt"
            using Some genericMapOf_Some_iff by auto
          have vt: "ValidateValueType vt = Ok ()"
            using valid ValidateValueType_generic_iff [OF kt, of vt] by (simp add: MapOf tm)
          have gvt: "go_value vt" using less.prems(1) by (simp add: MapOf tm)
          show ?thesis
            unfolding MapOf tm
          proof (rule cast_idempotent_generic [OF kt vt, of vm])
            show "CastValue lib (MapOf vm) (MapOf [(Str kt, vt)]) = Ok casted"
              using less.prems(2) by (simp add: vm MapOf tm)
          next
            fix k v c t
            assume kv: "(k, v) \<in> set vm" and t: "t = Str kt \<or> t = vt"
            have gt: "go_value t" using t gvt by auto
            show "(CastValue lib k t = Ok c \<longrightarrow> CastValue lib c t = Ok c) \<and>
               (CastValue lib v t = Ok c \<longrightarrow> CastValue lib c t = Ok c)"
              using sub [OF kv _ gt, of k c] sub [OF kv _ gt, of v c] by blast
          qed
        next
          case None
          have dist: "distinct (map fst tm)" using less.prems(1) by (simp add: MapOf)
          show ?thesis
            unfolding MapOf
          proof (rule cast_idempotent_fixed [OF _ ne None dist, of vm])
            show "ValidateValueType (MapOf tm) = Ok ()" using valid by (simp only: MapOf)
            show "CastValue lib (MapOf vm) (MapOf tm) = Ok casted"
              using less.prems(2) by (simp add: vm MapOf)
          next
            fix k v c t
            assume kv: "(k, v) \<in> set vm" and kt: "(k, t) \<in> set tm"
              and c: "CastValue lib v t = Ok c"
            have "go_value t" using less.prems(1) kt go_value_field [of tm k t] by (simp only: MapOf)
            then show "CastValue lib c t = Ok c" using sub [OF kv _ _ c] by blast
          qed
        qed
      qed
    next
      case Null
      then show ?thesis using valid by simp
    next
      case (Int64 i)
      then show ?thesis using valid by simp
    next
      case (Float64 f)
      then show ?thesis using valid by simp
    next
      case (Boolean b)
      then show ?thesis using valid by simp
    qed
  qed
qed


theorem cast_idempotent_witness:
  "canonical_coercions (spec_cast :: unit cast)
   \<and> go_value (MapOf [(Str ''STRING'', Slice [Str ''INT''])] :: unit Value)
   \<and> CastValue spec_cast (MapOf [(Str ''a'', Slice [Str ''1'', Int64 2]), (Str ''b'', Null)] :: unit Value)
         (MapOf [(Str ''STRING'', Slice [Str ''INT''])]) =
       Ok (MapOf [(Str ''a'', Slice [Int64 1, Int64 2]), (Str ''b'', Null)])
   \<and> CastValue spec_cast (MapOf [(Str ''a'', Slice [Int64 1, Int64 2]), (Str ''b'', Null)] :: unit Value)
         (MapOf [(Str ''STRING'', Slice [Str ''INT''])]) =
       Ok (MapOf [(Str ''a'', Slice [Int64 1, Int64 2]), (Str ''b'', Null)])"
proof -
  have canon: "canonical_coercions (spec_cast :: unit cast)"
    by (simp add: canonical_coercions_def)
  have go: "go_value (MapOf [(Str ''STRING'', Slice [Str ''INT''])] :: unit Value)"
    by simp
  have valid: "ValidateValueType (Slice [Str ''INT''] :: unit Value) = Ok ()"
    by simp
  have first: "CastValue spec_cast
      (MapOf [(Str ''a'', Slice [Str ''1'', Int64 2]), (Str ''b'', Null)] :: unit Value)
      (MapOf [(Str ''STRING'', Slice [Str ''INT''])]) =
       Ok (MapOf [(Str ''a'', Slice [Int64 1, Int64 2]), (Str ''b'', Null)])"
    by (simp add: CastValue_generic valid cast_entry_def CastValue_Slice cast_item_def
        CastValue_Null CastValue_union castUnion_def castFloat_def castString_def
        parse_int64_def digit_of_def collect_def enumerate_eq_zip
        del: ValidateValueType.simps)
  show ?thesis
    using canon go first cast_idempotent [OF canon go first] by simp
qed

subsection \<open>The order in which a map is enumerated\<close>































































end
